theory Spec2Isabelle
  imports Complex_Main "HOL-Library.Sublist"
begin

section \<open>Exceptions\<close>

text \<open>
  The notebook raises no exception of its own: every failure comes out of a library call.
  Each constructor names the Python exception class and the call that raises it:
  \<open>argmin\<close> of an empty array, \<open>match.group\<close> on \<open>None\<close>, \<open>np.dtype\<close> of an unknown name,
  the conversion of a value, and astropy's refusal to add a column under a name the table
  already has ("Cannot replace column").
\<close>

datatype conv_exn = ValueError | TypeError | OverflowError

datatype error =
    ValueError_argmin
  | AttributeError_group
  | TypeError_dtype
  | Convert conv_exn
  | ValueError_column

section \<open>64-bit floats\<close>

text \<open>
  A float is NaN, an infinity, or a finite value, given as the real number it stands for.
  The sign of zero is not modelled. \<open>fl64\<close> rounds a real number to the nearest float, ties
  to the even significand: the spacing of the floats around \<open>x\<close> is
  \<open>2 ^ (max e (-1022) - 52)\<close> for \<open>2 ^ e \<le> \<bar>x\<bar> < 2 ^ (e + 1)\<close>, and a result of magnitude
  \<open>2 ^ 1024\<close> is infinite.
\<close>

datatype pyfloat = NaN | PosInf | NegInf | Finite real

fun bit_length :: "nat \<Rightarrow> nat" where
  "bit_length n = (if n = 0 then 0 else Suc (bit_length (n div 2)))"

declare bit_length.simps [simp del]

definition exponent :: "real \<Rightarrow> int" where
  "exponent x = (if 1 \<le> x then int (bit_length (nat \<lfloor>x\<rfloor>)) - 1
                 else - int (bit_length (nat (\<lceil>1 / x\<rceil> - 1))))"

definition pow2 :: "int \<Rightarrow> real" where
  "pow2 k = (if 0 \<le> k then 2 ^ nat k else 1 / 2 ^ nat (- k))"

definition round_even :: "real \<Rightarrow> int" where
  "round_even x =
     (if x - real_of_int \<lfloor>x\<rfloor> < 1 / 2 then \<lfloor>x\<rfloor>
      else if 1 / 2 < x - real_of_int \<lfloor>x\<rfloor> then \<lfloor>x\<rfloor> + 1
      else if even \<lfloor>x\<rfloor> then \<lfloor>x\<rfloor> else \<lfloor>x\<rfloor> + 1)"

definition ulp :: "real \<Rightarrow> real" where
  "ulp x = pow2 (max (exponent \<bar>x\<bar>) (- 1022) - 52)"

definition round64 :: "real \<Rightarrow> real" where
  "round64 x = (if x = 0 then 0 else real_of_int (round_even (x / ulp x)) * ulp x)"

definition fl64 :: "real \<Rightarrow> pyfloat" where
  "fl64 x = (if 2 ^ 1024 \<le> round64 x then PosInf
             else if round64 x \<le> - (2 ^ 1024) then NegInf
             else Finite (round64 x))"

text \<open>Subtraction, absolute value and \<open>\<le>\<close> of floats; a comparison with NaN is false.\<close>

fun fsub :: "pyfloat \<Rightarrow> pyfloat \<Rightarrow> pyfloat" where
  "fsub NaN y = NaN"
| "fsub x NaN = NaN"
| "fsub PosInf PosInf = NaN"
| "fsub NegInf NegInf = NaN"
| "fsub PosInf y = PosInf"
| "fsub NegInf y = NegInf"
| "fsub (Finite x) PosInf = NegInf"
| "fsub (Finite x) NegInf = PosInf"
| "fsub (Finite x) (Finite y) = fl64 (x - y)"

fun fabs :: "pyfloat \<Rightarrow> pyfloat" where
  "fabs NaN = NaN"
| "fabs PosInf = PosInf"
| "fabs NegInf = PosInf"
| "fabs (Finite x) = Finite \<bar>x\<bar>"

fun float_le :: "pyfloat \<Rightarrow> pyfloat \<Rightarrow> bool" where
  "float_le NaN y = False"
| "float_le x NaN = False"
| "float_le NegInf y = True"
| "float_le x PosInf = True"
| "float_le PosInf y = False"
| "float_le (Finite x) NegInf = False"
| "float_le (Finite x) (Finite y) = (x \<le> y)"

section \<open>Nearest time index\<close>

text \<open>
  \<^verbatim>\<open>
  def find_index(btjd):
      return (np.abs(cutout_table['TIME'] - btjd)).argmin()
  \<close>
  \<open>cutout_table\<close> is a global of the notebook; the model passes it as an argument. Only
  its \<open>TIME\<close> and \<open>FLUX\<close> columns are used. \<open>TIME\<close> is an array of 64-bit floats, and \<open>btjd\<close>
  is taken as the float that numpy subtracts.
\<close>

record 'img cutout =
  TIME :: "pyfloat list"
  FLUX :: "'img list"

text \<open>
  \<open>ndarray.argmin\<close>: a left-to-right scan that keeps the first minimum. A later element
  replaces the best one when \<open>element >= best\<close> is false: when it is strictly smaller, or
  NaN; the scan stops at the first NaN. ValueError on an empty array.
\<close>

fun argmin_scan :: "pyfloat list \<Rightarrow> nat \<Rightarrow> nat \<Rightarrow> pyfloat \<Rightarrow> nat" where
  "argmin_scan [] i min_ind mp = min_ind"
| "argmin_scan (x # xs) i min_ind mp =
     (if \<not> float_le mp x
      then (if x = NaN then i else argmin_scan xs (Suc i) i x)
      else argmin_scan xs (Suc i) min_ind mp)"

definition argmin :: "pyfloat list \<Rightarrow> error + nat" where
  "argmin xs =
     (case xs of
        [] \<Rightarrow> Inl ValueError_argmin
      | x # rest \<Rightarrow> Inr (if x = NaN then 0 else argmin_scan rest 1 0 x))"

definition find_index :: "'img cutout \<Rightarrow> pyfloat \<Rightarrow> error + nat" where
  "find_index cutout_table btjd = argmin (map (\<lambda>t. fabs (fsub t btjd)) (TIME cutout_table))"

section \<open>Frame range of the animation\<close>

text \<open>
  \<^verbatim>\<open>
  def make_animation(data_array, start_frame=0, end_frame=None, ...):
      if not end_frame:
          end_frame = len(data_array) - 1 # set to the end of the array
      num_frames = end_frame - start_frame + 1 # include the end frame
      def animate(i, fig, ax, binarytab, start=0):
          ax.set_title("Epoch #" + str(i+start))
          im = ax.imshow(binarytab[i+start], ...)
      fig, ax = plt.subplots(figsize=(10,10))
      ax.imshow(data_array[start_frame], ...)
      ani = animation.FuncAnimation(fig, animate, fargs=(fig, ax, data_array, start_frame),
                                    frames=num_frames, ...)
  \<close>
  \<open>not end_frame\<close> holds for \<open>None\<close> and for \<open>0\<close>. \<open>FuncAnimation\<close> calls \<open>animate\<close> with
  \<open>i\<close> in \<open>range(num_frames)\<close>, which is empty when \<open>num_frames\<close> is not positive. The
  drawing is outside the model.
\<close>

definition effective_end :: "'a list \<Rightarrow> int option \<Rightarrow> int" where
  "effective_end data_array end_frame =
     (case end_frame of
        None \<Rightarrow> int (length data_array) - 1
      | Some e \<Rightarrow> if e = 0 then int (length data_array) - 1 else e)"

definition num_frames :: "'a list \<Rightarrow> int \<Rightarrow> int option \<Rightarrow> int" where
  "num_frames data_array start_frame end_frame =
     effective_end data_array end_frame - start_frame + 1"

definition animated_epochs :: "'a list \<Rightarrow> int \<Rightarrow> int option \<Rightarrow> int list" where
  "animated_epochs data_array start_frame end_frame =
     map (\<lambda>i. int i + start_frame) [0 ..< nat (num_frames data_array start_frame end_frame)]"

text \<open>\<open>binarytab[i+start]\<close>: Python indexing, negative indices count from the end.\<close>

datatype animation_error = ValueError_zero_size | IndexError

definition getitem :: "'a list \<Rightarrow> int \<Rightarrow> animation_error + 'a" where
  "getitem xs i =
     (if 0 \<le> i \<and> i < int (length xs) then Inr (xs ! nat i)
      else if i < 0 \<and> - int (length xs) \<le> i then Inr (xs ! nat (int (length xs) + i))
      else Inl IndexError)"

definition animated_frames :: "'a list \<Rightarrow> int \<Rightarrow> int option \<Rightarrow> (animation_error + 'a) list" where
  "animated_frames data_array start_frame end_frame =
     map (getitem data_array) (animated_epochs data_array start_frame end_frame)"

text \<open>
  \<^verbatim>\<open>
      if not vmin:
          vmin = np.min(data_array)
      if not vmax:
          vmax = np.max(data_array)
  \<close>
  \<open>not vmin\<close> holds for \<open>None\<close> and for zero. \<open>np.min\<close> and \<open>np.max\<close> raise ValueError on an
  array without elements; every image is taken to have a pixel, so that is the array
  without frames. The limits found are used by the drawing only.
\<close>

definition falsy :: "pyfloat option \<Rightarrow> bool" where
  "falsy v = (case v of None \<Rightarrow> True | Some f \<Rightarrow> f = Finite 0)"

text \<open>
  After the limits, the call draws \<open>data_array[start_frame]\<close>, which raises for a start
  index out of range. The animation it returns is modelled by the frames that the animation
  shows, in order, each one read when it is shown.
\<close>

definition make_animation ::
  "'a list \<Rightarrow> int \<Rightarrow> int option \<Rightarrow> pyfloat option \<Rightarrow> pyfloat option
     \<Rightarrow> animation_error + (animation_error + 'a) list" where
  "make_animation data_array start_frame end_frame vmin vmax =
     (if (falsy vmin \<or> falsy vmax) \<and> data_array = [] then Inl ValueError_zero_size
      else case getitem data_array start_frame of
             Inl e \<Rightarrow> Inl e
           | Inr first \<Rightarrow> Inr (animated_frames data_array start_frame end_frame))"

section \<open>Python strings\<close>

text \<open>
  Strings are lists of characters, one \<open>char\<close> per code point, for the code points below
  256. \<open>str.isspace\<close> holds there for tab, line feed, vertical tab, form feed, carriage
  return, the four separators 0x1C to 0x1F, the space, and the code points 0x85 and 0xA0.
\<close>

definition isspace :: "char \<Rightarrow> bool" where
  "isspace c = (c \<in> set [CHR 0x09, CHR 0x0A, CHR 0x0B, CHR 0x0C, CHR 0x0D,
                          CHR 0x1C, CHR 0x1D, CHR 0x1E, CHR 0x1F, CHR 0x20,
                          CHR 0x85, CHR 0xA0])"

definition strip :: "string \<Rightarrow> string" where
  "strip s = rev (dropWhile isspace (rev (dropWhile isspace s)))"

definition isdigit :: "char \<Rightarrow> bool" where
  "isdigit c = (c \<in> set ''0123456789'')"

definition lower :: "string \<Rightarrow> string" where
  "lower s = map (\<lambda>c. case map_of (zip ''ABCDEFGHIJKLMNOPQRSTUVWXYZ''
                                       ''abcdefghijklmnopqrstuvwxyz'') c of
                         None \<Rightarrow> c | Some l \<Rightarrow> l) s"

text \<open>\<open>sub in s\<close>: \<open>sub\<close> occurs in \<open>s\<close> as a contiguous run.\<close>

fun contains :: "string \<Rightarrow> string \<Rightarrow> bool" where
  "contains sub [] = (sub = [])"
| "contains sub (c # cs) = (prefix sub (c # cs) \<or> contains sub cs)"

definition digit_value :: "char \<Rightarrow> nat" where
  "digit_value c =
     (case map_of (zip ''0123456789'' [0, 1, 2, 3, 4, 5, 6, 7, 8, 9]) c of
        None \<Rightarrow> 0 | Some d \<Rightarrow> d)"

definition nat_of_digits :: "string \<Rightarrow> nat" where
  "nat_of_digits ds = foldl (\<lambda>n c. 10 * n + digit_value c) 0 ds"

fun str_nat :: "nat \<Rightarrow> string" where
  "str_nat n = (if n < 10 then [''0123456789'' ! n]
                else str_nat (n div 10) @ [''0123456789'' ! (n mod 10)])"

declare str_nat.simps [simp del]

definition str_int :: "int \<Rightarrow> string" where
  "str_int i = (if i < 0 then CHR ''-'' # str_nat (nat (- i)) else str_nat (nat i))"

subsection \<open>The regular expression\<close>

text \<open>
  \<^verbatim>\<open>rx = re.compile(r"varchar\((\d+)\)")\<close>.
  \<open>match_at s\<close> is the match of the pattern at the start of \<open>s\<close>, as its group 1: the text
  \<open>varchar(\<close>, a non-empty run of digits, and \<open>)\<close>. The run is the longest one, since the
  character after it has to be the parenthesis. \<open>rx.search\<close> returns the leftmost match, or
  \<open>None\<close>.
\<close>

definition match_at :: "string \<Rightarrow> string option" where
  "match_at s =
     (if prefix ''varchar('' s
      then (let ds = takeWhile isdigit (drop 8 s); rest = dropWhile isdigit (drop 8 s)
            in if ds \<noteq> [] \<and> prefix '')'' rest then Some ds else None)
      else None)"

fun rx_search :: "string \<Rightarrow> string option" where
  "rx_search [] = None"
| "rx_search (c # cs) = (case match_at (c # cs) of Some g \<Rightarrow> Some g | None \<Rightarrow> rx_search cs)"

section \<open>Python values and their conversions\<close>

text \<open>The values of a parsed JSON record.\<close>

datatype pyval = PNone | PBool bool | PInt int | PFloat pyfloat | PStr string

subsection \<open>Number literals\<close>

text \<open>
  \<open>float(s)\<close> and \<open>int(s)\<close> turn the white space above 127 into spaces and then strip the
  ASCII white space: tab to carriage return, and the space. The separators 0x1C to 0x1F
  stay, and the literal is refused.
\<close>

definition number_space :: "char \<Rightarrow> bool" where
  "number_space c = (c \<in> set [CHR 0x09, CHR 0x0A, CHR 0x0B, CHR 0x0C, CHR 0x0D, CHR 0x20,
                               CHR 0x85, CHR 0xA0])"

definition number_strip :: "string \<Rightarrow> string" where
  "number_strip s = rev (dropWhile number_space (rev (dropWhile number_space s)))"

text \<open>
  \<open>digitpart\<close> of the grammar of \<open>float()\<close> and \<open>int()\<close>: digits, with single underscores
  between them. The result is the digits read and the rest of the text.
\<close>

fun digitpart_rest :: "string \<Rightarrow> string \<times> string" where
  "digitpart_rest [] = ([], [])"
| "digitpart_rest [c] = (if isdigit c then ([c], []) else ([], [c]))"
| "digitpart_rest (c # d # cs) =
     (if isdigit c then (case digitpart_rest (d # cs) of (ds, r) \<Rightarrow> (c # ds, r))
      else if c = CHR ''_'' \<and> isdigit d then (case digitpart_rest cs of (ds, r) \<Rightarrow> (d # ds, r))
      else ([], c # d # cs))"

definition digitpart :: "string \<Rightarrow> (string \<times> string) option" where
  "digitpart s = (case s of [] \<Rightarrow> None
                  | c # cs \<Rightarrow> if isdigit c then Some (digitpart_rest s) else None)"

definition sign_rest :: "string \<Rightarrow> bool \<times> string" where
  "sign_rest s = (case s of [] \<Rightarrow> (False, [])
                  | c # cs \<Rightarrow> if c = CHR ''-'' then (True, cs)
                            else if c = CHR ''+'' then (False, cs) else (False, s))"

text \<open>\<open>int(s)\<close> in base 10: surrounding whitespace, a sign, a \<open>digitpart\<close>.\<close>

definition int_of_str :: "string \<Rightarrow> int option" where
  "int_of_str s =
     (case sign_rest (number_strip s) of (neg, r) \<Rightarrow>
        (case digitpart r of
           Some (ds, []) \<Rightarrow> Some (if neg then - int (nat_of_digits ds) else int (nat_of_digits ds))
         | _ \<Rightarrow> None))"

text \<open>
  \<open>float(s)\<close>: surrounding whitespace, a sign, then \<open>inf\<close>, \<open>infinity\<close> or \<open>nan\<close> in any
  case, or a number \<open>[digitpart] "." digitpart | digitpart ["."]\<close> with an optional exponent
  \<open>("e" | "E") [sign] digitpart\<close>. The value is rounded to a float, to an infinity when it
  is too large.
\<close>

definition scale10 :: "real \<Rightarrow> int \<Rightarrow> real" where
  "scale10 x e = (if 0 \<le> e then x * 10 ^ nat e else x / 10 ^ nat (- e))"

definition exponent_rest :: "string \<Rightarrow> int option" where
  "exponent_rest s =
     (case s of [] \<Rightarrow> Some 0
      | c # cs \<Rightarrow>
          if c = CHR ''e'' \<or> c = CHR ''E''
          then (case sign_rest cs of (neg, r) \<Rightarrow>
                  (case digitpart r of
                     Some (ds, []) \<Rightarrow>
                       Some (if neg then - int (nat_of_digits ds) else int (nat_of_digits ds))
                   | _ \<Rightarrow> None))
          else None)"

definition mantissa :: "string \<Rightarrow> string \<Rightarrow> real" where
  "mantissa ip fp = real (nat_of_digits ip) + real (nat_of_digits fp) / 10 ^ length fp"

definition floatnumber :: "string \<Rightarrow> real option" where
  "floatnumber s =
     (case digitpart s of
        Some (ip, r) \<Rightarrow>
          (case r of
             c # r' \<Rightarrow>
               if c = CHR ''.''
               then (case digitpart r' of
                       Some (fp, r'') \<Rightarrow> map_option (scale10 (mantissa ip fp)) (exponent_rest r'')
                     | None \<Rightarrow> map_option (scale10 (mantissa ip [])) (exponent_rest r'))
               else map_option (scale10 (mantissa ip [])) (exponent_rest r)
           | [] \<Rightarrow> Some (mantissa ip []))
      | None \<Rightarrow>
          (case s of
             c # r' \<Rightarrow>
               if c = CHR ''.''
               then (case digitpart r' of
                       Some (fp, r'') \<Rightarrow> map_option (scale10 (mantissa [] fp)) (exponent_rest r'')
                     | None \<Rightarrow> None)
               else None
           | [] \<Rightarrow> None))"

definition float_of_str :: "string \<Rightarrow> pyfloat option" where
  "float_of_str s =
     (case sign_rest (number_strip s) of (neg, r) \<Rightarrow>
        if lower r = ''inf'' \<or> lower r = ''infinity'' then Some (if neg then NegInf else PosInf)
        else if lower r = ''nan'' then Some NaN
        else map_option (\<lambda>x. fl64 (if neg then - x else x)) (floatnumber r))"

section \<open>The slice of numpy that the table construction uses\<close>

text \<open>
  \<open>np.array(values, dtype=atype)\<close> resolves the type name and converts every value. The
  model knows the names \<open>U<digits>\<close> (text of a fixed width, in code points), \<open>float\<close> and
  \<open>int\<close>. Every other name, and the printing of a finite float, is left to a parameter:
  \<open>native_dtype\<close> resolves a name or fails, \<open>native_convert\<close> converts one value to a cell
  of a resolved type or raises.
\<close>

record ('d, 'c) numpy =
  native_dtype :: "string \<Rightarrow> 'd option"
  native_convert :: "'d \<Rightarrow> pyval \<Rightarrow> conv_exn + 'c"
  float_repr :: "real \<Rightarrow> string"

datatype 'd dtype = Unicode nat | Float64 | Int64 | Native 'd

datatype 'c cell = TextCell string | FloatCell pyfloat | IntCell int | OtherCell 'c

record ('d, 'c) column =
  col_dtype :: "'d dtype"
  col_data :: "'c cell list"

text \<open>\<open>np.dtype(name)\<close>; \<open>None\<close> is "TypeError: data type not understood".\<close>

definition np_dtype :: "('d, 'c) numpy \<Rightarrow> string \<Rightarrow> 'd dtype option" where
  "np_dtype np name =
     (if name \<noteq> [] \<and> hd name = CHR ''U'' \<and> list_all isdigit (tl name)
      then Some (Unicode (nat_of_digits (tl name)))
      else if name = ''float'' then Some Float64
      else if name = ''int'' then Some Int64
      else map_option Native (native_dtype np name))"

text \<open>\<open>str(v)\<close>, which a text array stores for a value that is not a string.\<close>

definition py_str :: "('d, 'c) numpy \<Rightarrow> pyval \<Rightarrow> string" where
  "py_str np v =
     (case v of
        PNone \<Rightarrow> ''None''
      | PBool b \<Rightarrow> if b then ''True'' else ''False''
      | PInt i \<Rightarrow> str_int i
      | PFloat f \<Rightarrow> (case f of NaN \<Rightarrow> ''nan'' | PosInf \<Rightarrow> ''inf'' | NegInf \<Rightarrow> ''-inf''
                     | Finite x \<Rightarrow> float_repr np x)
      | PStr s \<Rightarrow> s)"

text \<open>
  A float cell: \<open>None\<close> becomes NaN, anything else goes through \<open>float(v)\<close>. An int is
  rounded to the nearest float, and raises OverflowError when that is not finite.
\<close>

definition to_float :: "pyval \<Rightarrow> conv_exn + pyfloat" where
  "to_float v =
     (case v of
        PNone \<Rightarrow> Inr NaN
      | PBool b \<Rightarrow> Inr (Finite (if b then 1 else 0))
      | PInt i \<Rightarrow> (case fl64 (real_of_int i) of Finite x \<Rightarrow> Inr (Finite x) | _ \<Rightarrow> Inl OverflowError)
      | PFloat f \<Rightarrow> Inr f
      | PStr s \<Rightarrow> (case float_of_str s of None \<Rightarrow> Inl ValueError | Some f \<Rightarrow> Inr f))"

text \<open>
  An int cell, through \<open>int(v)\<close>: \<open>None\<close> raises TypeError, a float is cut towards zero,
  and the result has to fit the 64 bits of numpy's default integer.
\<close>

definition fits_int64 :: "int \<Rightarrow> conv_exn + int" where
  "fits_int64 i = (if - (2 ^ 63) \<le> i \<and> i < 2 ^ 63 then Inr i else Inl OverflowError)"

definition to_int :: "pyval \<Rightarrow> conv_exn + int" where
  "to_int v =
     (case v of
        PNone \<Rightarrow> Inl TypeError
      | PBool b \<Rightarrow> Inr (if b then 1 else 0)
      | PInt i \<Rightarrow> fits_int64 i
      | PFloat f \<Rightarrow> (case f of NaN \<Rightarrow> Inl ValueError | PosInf \<Rightarrow> Inl OverflowError
                     | NegInf \<Rightarrow> Inl OverflowError
                     | Finite x \<Rightarrow> fits_int64 (if 0 \<le> x then \<lfloor>x\<rfloor> else \<lceil>x\<rceil>))
      | PStr s \<Rightarrow> (case int_of_str s of None \<Rightarrow> Inl ValueError | Some i \<Rightarrow> fits_int64 i))"

text \<open>
  One cell of an array of the resolved type. A text cell stores at most the width, and
  reads back without the NUL characters at its end.
\<close>

definition drop_trailing_nul :: "string \<Rightarrow> string" where
  "drop_trailing_nul s = rev (dropWhile (\<lambda>c. c = CHR 0x00) (rev s))"

definition cell_of :: "('d, 'c) numpy \<Rightarrow> 'd dtype \<Rightarrow> pyval \<Rightarrow> conv_exn + 'c cell" where
  "cell_of np dt v =
     (case dt of
        Unicode n \<Rightarrow>
          Inr (TextCell (drop_trailing_nul (if n = 0 then py_str np v else take n (py_str np v))))
      | Float64 \<Rightarrow> map_sum id FloatCell (to_float v)
      | Int64 \<Rightarrow> map_sum id IntCell (to_int v)
      | Native d \<Rightarrow> map_sum id OtherCell (native_convert np d v))"

text \<open>The values are converted in order; the first one that fails raises.\<close>

fun convert_all :: "('v \<Rightarrow> 'e + 'a) \<Rightarrow> 'v list \<Rightarrow> 'e + 'a list" where
  "convert_all f [] = Inr []"
| "convert_all f (v # vs) =
     (case f v of
        Inl e \<Rightarrow> Inl e
      | Inr c \<Rightarrow> (case convert_all f vs of Inl e \<Rightarrow> Inl e | Inr cs \<Rightarrow> Inr (c # cs)))"

definition cells_of :: "('d, 'c) numpy \<Rightarrow> 'd dtype \<Rightarrow> pyval list \<Rightarrow> conv_exn + 'c cell list" where
  "cells_of np dt values = convert_all (cell_of np dt) values"

text \<open>
  A text type of width 0 (\<open>U0\<close>, \<open>U\<close>) is flexible: the array takes the width of its longest
  element, and at least 1.
\<close>

definition result_dtype :: "('d, 'c) numpy \<Rightarrow> 'd dtype \<Rightarrow> pyval list \<Rightarrow> 'd dtype" where
  "result_dtype np dt values =
     (case dt of
        Unicode n \<Rightarrow> if n = 0 then Unicode (max 1 (foldr max (map (\<lambda>v. length (py_str np v)) values) 0))
                     else Unicode n
      | _ \<Rightarrow> dt)"

definition np_array :: "('d, 'c) numpy \<Rightarrow> pyval list \<Rightarrow> string \<Rightarrow> error + ('d, 'c) column" where
  "np_array np values atype =
     (case np_dtype np atype of
        None \<Rightarrow> Inl TypeError_dtype
      | Some dt \<Rightarrow>
          (case cells_of np dt values of
             Inl e \<Rightarrow> Inl (Convert e)
           | Inr cs \<Rightarrow> Inr \<lparr>col_dtype = result_dtype np dt values, col_data = cs\<rparr>))"

section \<open>JSON to table\<close>

text \<open>
  \<^verbatim>\<open>
  def json_to_table(fields, data):
      rx = re.compile(r"varchar\((\d+)\)")
      data_table = Table()
      for col, atype in [(x['colname'], x['datatype']) for x in fields]:
          col = col.strip()
          if "varchar" in atype:
              match = rx.search(atype)
              atype = "U" + match.group(1)
          if atype == "real":
              atype = "float"
          data_table[col] = np.array([x.get(col, None) for x in data], dtype=atype)
      return data_table
  \<close>
  A field is a dictionary with the keys \<open>colname\<close>, \<open>datatype\<close> and \<open>description\<close>; a row
  of \<open>data\<close> is a dictionary from column names to values.
\<close>

record field =
  colname :: string
  datatype' :: string
  description :: string

type_synonym row = "string \<rightharpoonup> pyval"

text \<open>\<open>x.get(col, None)\<close>\<close>

definition dict_get :: "row \<Rightarrow> string \<Rightarrow> pyval" where
  "dict_get x col = (case x col of None \<Rightarrow> PNone | Some v \<Rightarrow> v)"

text \<open>
  An astropy table: its columns by name, in the order they were added.
  \<open>data_table[col] = array\<close> replaces the column of that name, where it stands, when the
  table has one. Otherwise it adds a column at the end, under the name \<open>col\<close>, or under
  \<open>col<k>\<close> for the number \<open>k\<close> of columns of the table when \<open>col\<close> is empty; when the table
  has a column of that default name already, adding raises ValueError.
\<close>

type_synonym ('d, 'c) table = "(string \<times> ('d, 'c) column) list"

fun replace_column :: "('d, 'c) table \<Rightarrow> string \<Rightarrow> ('d, 'c) column \<Rightarrow> ('d, 'c) table" where
  "replace_column [] col arr = []"
| "replace_column ((k, v) # t) col arr =
     (if k = col then (col, arr) # t else (k, v) # replace_column t col arr)"

definition add_column :: "('d, 'c) table \<Rightarrow> string \<Rightarrow> ('d, 'c) column \<Rightarrow> error + ('d, 'c) table" where
  "add_column t col arr =
     (let name = (if col = [] then ''col'' @ str_nat (length t) else col)
      in if name \<in> set (map fst t) then Inl ValueError_column else Inr (t @ [(name, arr)]))"

definition table_setitem :: "('d, 'c) table \<Rightarrow> string \<Rightarrow> ('d, 'c) column \<Rightarrow> error + ('d, 'c) table" where
  "table_setitem t col arr =
     (if col \<in> set (map fst t) then Inr (replace_column t col arr) else add_column t col arr)"

text \<open>
  The two rewritings of the type name. \<open>match\<close> is \<open>None\<close> when the name has \<open>varchar\<close> in it
  and no width in parentheses, and \<open>match.group(1)\<close> raises AttributeError.
\<close>

definition storage_name :: "string \<Rightarrow> error + string" where
  "storage_name atype =
     (case (if contains ''varchar'' atype
            then (case rx_search atype of None \<Rightarrow> Inl AttributeError_group
                  | Some g \<Rightarrow> Inr (''U'' @ g))
            else Inr atype) of
        Inl e \<Rightarrow> Inl e
      | Inr atype \<Rightarrow> Inr (if atype = ''real'' then ''float'' else atype))"

text \<open>The body of the loop, for one \<open>(col, atype)\<close> pair.\<close>

definition loop_body ::
  "('d, 'c) numpy \<Rightarrow> row list \<Rightarrow> ('d, 'c) table \<Rightarrow> string \<times> string \<Rightarrow> error + ('d, 'c) table" where
  "loop_body np data data_table ca =
     (case ca of (col0, atype0) \<Rightarrow>
        (let col = strip col0 in
         case storage_name atype0 of
           Inl e \<Rightarrow> Inl e
         | Inr atype \<Rightarrow>
             (case np_array np (map (\<lambda>x. dict_get x col) data) atype of
                Inl e \<Rightarrow> Inl e
              | Inr arr \<Rightarrow> table_setitem data_table col arr)))"

fun for_loop ::
  "('d, 'c) numpy \<Rightarrow> row list \<Rightarrow> ('d, 'c) table \<Rightarrow> (string \<times> string) list \<Rightarrow> error + ('d, 'c) table" where
  "for_loop np data data_table [] = Inr data_table"
| "for_loop np data data_table (ca # rest) =
     (case loop_body np data data_table ca of
        Inl e \<Rightarrow> Inl e
      | Inr data_table' \<Rightarrow> for_loop np data data_table' rest)"

definition json_to_table :: "('d, 'c) numpy \<Rightarrow> field list \<Rightarrow> row list \<Rightarrow> error + ('d, 'c) table" where
  "json_to_table np fields' data =
     for_loop np data [] (map (\<lambda>x. (colname x, datatype' x)) fields')"

section \<open>Auxiliary notions for the statements\<close>

text \<open>The storage type of a declared type name: the rewriting, then numpy's resolution.\<close>

definition storage_dtype :: "('d, 'c) numpy \<Rightarrow> string \<Rightarrow> error + 'd dtype" where
  "storage_dtype np atype0 =
     (case storage_name atype0 of
        Inl e \<Rightarrow> Inl e
      | Inr atype \<Rightarrow> (case np_dtype np atype of None \<Rightarrow> Inl TypeError_dtype | Some dt \<Rightarrow> Inr dt))"

text \<open>The name and the array that one pass of the loop builds from a schema entry.\<close>

definition column_name :: "field \<Rightarrow> string" where
  "column_name x = strip (colname x)"

definition make_column ::
  "('d, 'c) numpy \<Rightarrow> row list \<Rightarrow> string \<times> string \<Rightarrow> error + string \<times> ('d, 'c) column" where
  "make_column np data ca =
     (case ca of (col0, atype0) \<Rightarrow>
        (case storage_name atype0 of
           Inl e \<Rightarrow> Inl e
         | Inr atype \<Rightarrow>
             (case np_array np (map (\<lambda>x. dict_get x (strip col0)) data) atype of
                Inl e \<Rightarrow> Inl e
              | Inr arr \<Rightarrow> Inr (strip col0, arr))))"

definition column_for :: "('d, 'c) numpy \<Rightarrow> row list \<Rightarrow> field \<Rightarrow> error + ('d, 'c) column" where
  "column_for np data x = map_sum id snd (make_column np data (colname x, datatype' x))"

text \<open>
  The table that the loop builds from named arrays when every name is non-empty: each
  array replaces the column of its name or goes to the end.
\<close>

definition put_column :: "('d, 'c) table \<Rightarrow> string \<Rightarrow> ('d, 'c) column \<Rightarrow> ('d, 'c) table" where
  "put_column t col arr =
     (if col \<in> set (map fst t) then replace_column t col arr else t @ [(col, arr)])"

definition setitems :: "(string \<times> ('d, 'c) column) list \<Rightarrow> ('d, 'c) table \<Rightarrow> ('d, 'c) table" where
  "setitems cols data_table = fold (\<lambda>(k, arr) t. put_column t k arr) cols data_table"

text \<open>The width that the loop reads off a declared type name, if it reads one.\<close>

definition declared_width :: "string \<Rightarrow> nat option" where
  "declared_width atype =
     (if contains ''varchar'' atype then map_option nat_of_digits (rx_search atype) else None)"

text \<open>The two failures of the type mapping, as against the failures of a value.\<close>

definition type_mapping_error :: "error \<Rightarrow> bool" where
  "type_mapping_error e = (e = AttributeError_group \<or> e = TypeError_dtype)"

text \<open>
  A numpy in which no name but the modelled ones resolves, for the examples. They print no
  float.
\<close>

definition numpy_core :: "(unit, unit) numpy" where
  "numpy_core = \<lparr>native_dtype = (\<lambda>name. None), native_convert = (\<lambda>d v. Inl TypeError),
                  float_repr = (\<lambda>x. [])\<rparr>"

section \<open>Properties of the nearest time index\<close>

lemmas float_eval = fl64_def round64_def ulp_def round_even_def pow2_def exponent_def
  bit_length.simps

lemma fl64_not_NaN: "fl64 x \<noteq> NaN"
  by (simp add: fl64_def)

lemma distance_not_NaN: "fabs (fsub (Finite t) (Finite q)) \<noteq> NaN"
  by (cases "fl64 (t - q)") (simp_all add: fl64_not_NaN)

lemma float_le_refl: "x \<noteq> NaN \<Longrightarrow> float_le x x"
  by (cases x) simp_all

lemma float_le_total: "x \<noteq> NaN \<Longrightarrow> y \<noteq> NaN \<Longrightarrow> \<not> float_le x y \<Longrightarrow> float_le y x"
  by (cases x; cases y) simp_all

lemma float_le_trans: "float_le x y \<Longrightarrow> float_le y z \<Longrightarrow> float_le x z"
  by (cases x; cases y; cases z) simp_all

lemma argmin_scan_bound:
  "min_ind < i \<Longrightarrow> argmin_scan xs i min_ind mp < i + length xs"
proof (induction xs arbitrary: i min_ind mp)
  case Nil
  then show ?case by simp
next
  case (Cons x xs)
  have a: "argmin_scan xs (Suc i) i x < Suc i + length xs" by (rule Cons.IH) simp
  have b: "argmin_scan xs (Suc i) min_ind mp < Suc i + length xs"
    using Cons.prems by (intro Cons.IH) simp
  from a b show ?case by simp
qed

lemma argmin_bound: "argmin xs = Inr i \<Longrightarrow> i < length xs"
proof (cases xs)
  case Nil
  assume "argmin xs = Inr i"
  with Nil show ?thesis by (simp add: argmin_def)
next
  case (Cons x rest)
  assume "argmin xs = Inr i"
  with Cons argmin_scan_bound [of 0 1 rest x] show ?thesis
    by (auto simp: argmin_def split: if_splits)
qed

lemma find_index_bound: "find_index tbl q = Inr i \<Longrightarrow> i < length (TIME tbl)"
  using argmin_bound [of "map (\<lambda>t. fabs (fsub t q)) (TIME tbl)" i] by (simp add: find_index_def)

lemma argmin_scan_spec:
  assumes "NaN \<notin> set pre" and "NaN \<notin> set xs"
    and "bi < length pre" and "bv = pre ! bi"
    and "\<forall>j<length pre. float_le bv (pre ! j)" and "\<forall>j<bi. \<not> float_le (pre ! j) bv"
  shows "argmin_scan xs (length pre) bi bv < length (pre @ xs)
       \<and> (\<forall>j<length (pre @ xs).
             float_le ((pre @ xs) ! argmin_scan xs (length pre) bi bv) ((pre @ xs) ! j))
       \<and> (\<forall>j<argmin_scan xs (length pre) bi bv.
             \<not> float_le ((pre @ xs) ! j) ((pre @ xs) ! argmin_scan xs (length pre) bi bv))"
  using assms
proof (induction xs arbitrary: pre bi bv)
  case Nil
  then show ?case by simp
next
  case (Cons x xs)
  let ?pre = "pre @ [x]"
  have len: "length ?pre = Suc (length pre)" by simp
  have x: "x \<noteq> NaN" using Cons.prems(2) by auto
  have bv: "bv \<noteq> NaN" using Cons.prems(1,3,4) by (metis nth_mem)
  have nan1: "NaN \<notin> set ?pre" using Cons.prems(1) x by simp
  have nan2: "NaN \<notin> set xs" using Cons.prems(2) by simp
  show ?case
  proof (cases "float_le bv x")
    case False
    have xb: "float_le x bv" using bv x False by (rule float_le_total)
    have a: "length pre < length ?pre" by simp
    have b: "x = ?pre ! length pre" by simp
    have c: "\<forall>j<length ?pre. float_le x (?pre ! j)"
    proof (intro allI impI)
      fix j assume "j < length ?pre"
      then consider "j < length pre" | "j = length pre" by fastforce
      then show "float_le x (?pre ! j)"
      proof cases
        case 1
        with Cons.prems(5) have "float_le bv (pre ! j)" by simp
        with xb have "float_le x (pre ! j)" by (rule float_le_trans)
        with 1 show ?thesis by (simp add: nth_append)
      next
        case 2
        then show ?thesis using x by (simp add: float_le_refl)
      qed
    qed
    have d: "\<forall>j<length pre. \<not> float_le (?pre ! j) x"
    proof (intro allI impI)
      fix j assume j: "j < length pre"
      show "\<not> float_le (?pre ! j) x"
      proof
        assume "float_le (?pre ! j) x"
        with j have "float_le (pre ! j) x" by (simp add: nth_append)
        moreover from Cons.prems(5) j have "float_le bv (pre ! j)" by simp
        ultimately have "float_le bv x" using float_le_trans by blast
        with False show False by simp
      qed
    qed
    from Cons.IH [OF nan1 nan2 a b c d] False x show ?thesis
      by (simp add: len [symmetric] del: length_append)
  next
    case True
    have a: "bi < length ?pre" using Cons.prems(3) by simp
    have b: "bv = ?pre ! bi" using Cons.prems(3,4) by (simp add: nth_append)
    have c: "\<forall>j<length ?pre. float_le bv (?pre ! j)"
      using Cons.prems(5) True by (auto simp: nth_append less_Suc_eq)
    have d: "\<forall>j<bi. \<not> float_le (?pre ! j) bv"
      using Cons.prems(3,6) by (auto simp: nth_append)
    from Cons.IH [OF nan1 nan2 a b c d] True show ?thesis
      by (simp add: len [symmetric] del: length_append)
  qed
qed

lemma argmin_spec:
  assumes "xs \<noteq> []" and "NaN \<notin> set xs"
  shows "\<exists>i. argmin xs = Inr i \<and> i < length xs
       \<and> (\<forall>j<length xs. float_le (xs ! i) (xs ! j)) \<and> (\<forall>j<i. \<not> float_le (xs ! j) (xs ! i))"
proof -
  from assms obtain x rest where xs: "xs = x # rest" by (cases xs) auto
  from assms(2) have x: "x \<noteq> NaN" and rest: "NaN \<notin> set rest" by (auto simp: xs)
  have "argmin_scan rest (length [x]) 0 x < length ([x] @ rest)
       \<and> (\<forall>j<length ([x] @ rest).
             float_le (([x] @ rest) ! argmin_scan rest (length [x]) 0 x) (([x] @ rest) ! j))
       \<and> (\<forall>j<argmin_scan rest (length [x]) 0 x.
             \<not> float_le (([x] @ rest) ! j) (([x] @ rest) ! argmin_scan rest (length [x]) 0 x))"
    using x rest by (intro argmin_scan_spec) (simp_all add: float_le_refl)
  then show ?thesis using x by (simp add: xs argmin_def)
qed

lemma find_index_spec:
  assumes "ts \<noteq> []" and "TIME tbl = map Finite ts"
  shows "\<exists>i. find_index tbl (Finite q) = Inr i \<and> i < length ts
       \<and> (\<forall>j<length ts. float_le (fabs (fsub (Finite (ts ! i)) (Finite q)))
                                 (fabs (fsub (Finite (ts ! j)) (Finite q))))
       \<and> (\<forall>j<i. \<not> float_le (fabs (fsub (Finite (ts ! j)) (Finite q)))
                           (fabs (fsub (Finite (ts ! i)) (Finite q))))"
proof -
  let ?d = "map (\<lambda>t. fabs (fsub (Finite t) (Finite q))) ts"
  have d: "map (\<lambda>t. fabs (fsub t (Finite q))) (TIME tbl) = ?d"
    by (simp add: assms(2) comp_def)
  have ne: "?d \<noteq> []" using assms(1) by simp
  have nan: "NaN \<notin> set ?d"
  proof
    assume "NaN \<in> set ?d"
    then obtain t where "NaN = fabs (fsub (Finite t) (Finite q))" by (auto simp del: fsub.simps)
    then have "fabs (fsub (Finite t) (Finite q)) = NaN" by (rule sym)
    with distance_not_NaN [of t q] show False by simp
  qed
  from argmin_spec [OF ne nan] obtain i where i: "argmin ?d = Inr i" "i < length ?d"
    "\<forall>j<length ?d. float_le (?d ! i) (?d ! j)" "\<forall>j<i. \<not> float_le (?d ! j) (?d ! i)"
    by blast
  from i(2) have il: "i < length ts" by simp
  from i(3) il have "\<forall>j<length ts. float_le (fabs (fsub (Finite (ts ! i)) (Finite q)))
                                 (fabs (fsub (Finite (ts ! j)) (Finite q)))"
    by (simp del: fsub.simps fabs.simps)
  moreover from i(4) il have "\<forall>j<i. \<not> float_le (fabs (fsub (Finite (ts ! j)) (Finite q)))
                           (fabs (fsub (Finite (ts ! i)) (Finite q)))"
    by (simp del: fsub.simps fabs.simps)
  ultimately show ?thesis using i(1) il unfolding find_index_def d by blast
qed

lemma nearest_endpoints:
  fixes ts :: "real list"
  assumes ne: "ts \<noteq> []" and i: "i < length ts"
    and least: "\<forall>j<length ts. \<bar>ts ! i - q\<bar> \<le> \<bar>ts ! j - q\<bar>"
    and first: "\<forall>j<i. \<bar>ts ! i - q\<bar> < \<bar>ts ! j - q\<bar>"
  shows "((\<forall>t\<in>set ts. q \<le> t) \<longrightarrow> ts ! i = Min (set ts))
       \<and> ((\<forall>t\<in>set ts. t \<le> q) \<longrightarrow> ts ! i = Max (set ts))
       \<and> (sorted ts \<and> q \<le> hd ts \<longrightarrow> i = 0)
       \<and> (sorted ts \<and> last ts \<le> q \<longrightarrow>
            ts ! i = last ts \<and> (distinct ts \<longrightarrow> i = length ts - 1))"
proof -
  have mem: "ts ! i \<in> set ts" using i by simp
  have low: "ts ! i = Min (set ts)" if below: "\<forall>t\<in>set ts. q \<le> t"
  proof (rule antisym)
    have "Min (set ts) \<in> set ts" using ne by (intro Min_in) simp_all
    then obtain j where j: "j < length ts" "ts ! j = Min (set ts)" by (auto simp: in_set_conv_nth)
    from least j(1) have "\<bar>ts ! i - q\<bar> \<le> \<bar>ts ! j - q\<bar>" by simp
    moreover have "q \<le> ts ! i" "q \<le> ts ! j" using below mem j(1) by simp_all
    ultimately show "ts ! i \<le> Min (set ts)" using j(2) by simp
    show "Min (set ts) \<le> ts ! i" using mem by simp
  qed
  have high: "ts ! i = Max (set ts)" if above: "\<forall>t\<in>set ts. t \<le> q"
  proof (rule antisym)
    have "Max (set ts) \<in> set ts" using ne by (intro Max_in) simp_all
    then obtain j where j: "j < length ts" "ts ! j = Max (set ts)" by (auto simp: in_set_conv_nth)
    from least j(1) have "\<bar>ts ! i - q\<bar> \<le> \<bar>ts ! j - q\<bar>" by simp
    moreover have "ts ! i \<le> q" "ts ! j \<le> q" using above mem j(1) by simp_all
    ultimately show "Max (set ts) \<le> ts ! i" using j(2) by simp
    show "ts ! i \<le> Max (set ts)" using mem by simp
  qed
  have zero: "i = 0" if "sorted ts" "q \<le> hd ts"
  proof (rule ccontr)
    assume "i \<noteq> 0"
    then have "0 < i" by simp
    with first have lt: "\<bar>ts ! i - q\<bar> < \<bar>ts ! 0 - q\<bar>" by simp
    have "ts ! 0 \<le> ts ! i" using that(1) i by (simp add: sorted_nth_mono)
    moreover have "q \<le> ts ! 0" using that(2) ne by (simp add: hd_conv_nth)
    ultimately show False using lt by simp
  qed
  have end1: "ts ! i = last ts" if "sorted ts" "last ts \<le> q"
  proof -
    have l: "last ts = ts ! (length ts - 1)" using ne by (simp add: last_conv_nth)
    have n1: "length ts - 1 < length ts" using ne by simp
    have "ts ! i \<le> ts ! (length ts - 1)" using that(1) i by (simp add: sorted_nth_mono)
    moreover from least n1 have "\<bar>ts ! i - q\<bar> \<le> \<bar>ts ! (length ts - 1) - q\<bar>" by blast
    ultimately show ?thesis using that(2) l by simp
  qed
  have end2: "i = length ts - 1" if "sorted ts" "last ts \<le> q" "distinct ts"
  proof -
    have l: "last ts = ts ! (length ts - 1)" using ne by (simp add: last_conv_nth)
    have n1: "length ts - 1 < length ts" using ne by simp
    from end1 [OF that(1,2)] l have "ts ! i = ts ! (length ts - 1)" by simp
    with that(3) i n1 show ?thesis by (simp add: nth_eq_iff_index_eq)
  qed
  show ?thesis
    using low high zero end1 end2 by blast
qed

lemma find_index_exact:
  assumes ne: "ts \<noteq> []" and time: "TIME tbl = map Finite ts"
    and exact: "\<forall>j<length ts. fsub (Finite (ts ! j)) (Finite q) = Finite (ts ! j - q)"
  shows "\<exists>i. find_index tbl (Finite q) = Inr i \<and> i < length ts
       \<and> (\<forall>j<length ts. \<bar>ts ! i - q\<bar> \<le> \<bar>ts ! j - q\<bar>)
       \<and> (\<forall>j<i. \<bar>ts ! i - q\<bar> < \<bar>ts ! j - q\<bar>)"
proof -
  from find_index_spec [OF ne time, of q] obtain i where i: "find_index tbl (Finite q) = Inr i"
    "i < length ts"
    and least: "\<forall>j<length ts. float_le (fabs (fsub (Finite (ts ! i)) (Finite q)))
                                 (fabs (fsub (Finite (ts ! j)) (Finite q)))"
    and first: "\<forall>j<i. \<not> float_le (fabs (fsub (Finite (ts ! j)) (Finite q)))
                           (fabs (fsub (Finite (ts ! i)) (Finite q)))"
    by blast
  have "\<forall>j<length ts. \<bar>ts ! i - q\<bar> \<le> \<bar>ts ! j - q\<bar>"
  proof (intro allI impI)
    fix j assume j: "j < length ts"
    with least have "float_le (fabs (fsub (Finite (ts ! i)) (Finite q)))
                              (fabs (fsub (Finite (ts ! j)) (Finite q)))" by blast
    with exact i(2) j show "\<bar>ts ! i - q\<bar> \<le> \<bar>ts ! j - q\<bar>" by (simp del: fsub.simps)
  qed
  moreover have "\<forall>j<i. \<bar>ts ! i - q\<bar> < \<bar>ts ! j - q\<bar>"
  proof (intro allI impI)
    fix j assume j: "j < i"
    with first have "\<not> float_le (fabs (fsub (Finite (ts ! j)) (Finite q)))
                              (fabs (fsub (Finite (ts ! i)) (Finite q)))" by blast
    moreover from j i(2) have "j < length ts" by simp
    ultimately show "\<bar>ts ! i - q\<bar> < \<bar>ts ! j - q\<bar>" using exact i(2) by (simp del: fsub.simps)
  qed
  ultimately show ?thesis using i by blast
qed

lemma epochs_upt:
  "map (\<lambda>i. int i + int s) [0 ..< nat (int e - int s + 1)] = map int [s ..< Suc e]"
proof -
  have n: "nat (int e - int s + 1) = Suc e - s" by simp
  have "map (\<lambda>i. int i + int s) [0 ..< Suc e - s] = map int (map (\<lambda>i. i + s) [0 ..< Suc e - s])"
    by simp
  also have "map (\<lambda>i. i + s) [0 ..< Suc e - s] = [s ..< Suc e]"
    by (cases "s \<le> Suc e") (simp_all add: map_add_upt)
  finally show ?thesis by (simp only: n)
qed

lemma map_getitem_upt:
  assumes "e < length xs"
  shows "map (getitem xs) (map int [s ..< Suc e]) = map (\<lambda>i. Inr (xs ! i)) [s ..< Suc e]"
  using assms by (simp add: getitem_def)

section \<open>Properties of the table construction\<close>

lemma convert_all_Inr_iff:
  "convert_all f xs = Inr ys \<longleftrightarrow> list_all2 (\<lambda>x y. f x = Inr y) xs ys"
proof (induction xs arbitrary: ys)
  case Nil
  then show ?case by auto
next
  case (Cons x xs)
  show ?case
  proof (cases "f x")
    case (Inl e)
    then show ?thesis by (cases ys) auto
  next
    case fx: (Inr c)
    show ?thesis
    proof (cases "convert_all f xs")
      case (Inl e)
      with Cons.IH have "\<And>zs. \<not> list_all2 (\<lambda>x y. f x = Inr y) xs zs" by simp
      then show ?thesis using fx Inl by (cases ys) auto
    next
      case (Inr cs)
      with Cons.IH have "\<And>zs. list_all2 (\<lambda>x y. f x = Inr y) xs zs \<longleftrightarrow> cs = zs" by simp
      then show ?thesis using fx Inr by (cases ys) auto
    qed
  qed
qed

lemma convert_all_first_failure:
  assumes "\<forall>x\<in>set pre. \<exists>y. f x = Inr y" and "f x = Inl e"
  shows "convert_all f (pre @ x # post) = Inl e"
  using assms by (induction pre) (auto split: sum.splits)

lemma convert_all_total:
  assumes "\<forall>x\<in>set xs. \<exists>y. f x = Inr y"
  shows "\<exists>ys. convert_all f xs = Inr ys"
  using assms by (induction xs) (auto split: sum.splits)

lemma convert_all_fails:
  assumes "x \<in> set xs" and "f x = Inl e"
  shows "\<exists>e'. convert_all f xs = Inl e'"
proof (cases "convert_all f xs")
  case (Inl e')
  then show ?thesis by blast
next
  case (Inr ys)
  then have "list_all2 (\<lambda>x y. f x = Inr y) xs ys" by (simp add: convert_all_Inr_iff)
  with assms(1) obtain y where "f x = Inr y"
    by (auto simp: list_all2_conv_all_nth in_set_conv_nth)
  with assms(2) show ?thesis by simp
qed

lemma convert_all_Inl_source:
  "convert_all f xs = Inl e \<Longrightarrow> \<exists>x\<in>set xs. f x = Inl e"
  by (induction xs) (auto split: sum.splits)

lemma convert_all_Inr_map: "convert_all (\<lambda>v. Inr (g v)) xs = Inr (map g xs)"
  by (induction xs) simp_all

lemma replace_column_names: "map fst (replace_column t k v) = map fst t"
  by (induction t k v rule: replace_column.induct) auto

lemma map_of_replace_column:
  "k \<in> fst ` set t \<Longrightarrow>
     map_of (replace_column t k v) k' = (if k' = k then Some v else map_of t k')"
  by (induction t k v rule: replace_column.induct) (force+)

lemma replace_column_columns: "snd ` set (replace_column t k v) \<subseteq> insert v (snd ` set t)"
  by (induction t k v rule: replace_column.induct) auto

lemma put_column_names: "fst ` set (put_column t k v) = insert k (fst ` set t)"
proof (cases "k \<in> set (map fst t)")
  case True
  have "fst ` set (replace_column t k v) = set (map fst (replace_column t k v))" by simp
  also have "\<dots> = set (map fst t)" by (simp only: replace_column_names)
  finally show ?thesis using True by (auto simp: put_column_def)
next
  case False
  then show ?thesis by (simp add: put_column_def)
qed


lemma put_column_fresh: "k \<notin> fst ` set t \<Longrightarrow> put_column t k v = t @ [(k, v)]"
  by (simp add: put_column_def)

lemma map_of_put_column: "map_of (put_column t k v) = (map_of t)(k \<mapsto> v)"
proof (cases "k \<in> fst ` set t")
  case True
  then show ?thesis by (intro ext) (simp add: put_column_def map_of_replace_column)
next
  case False
  then have "map_of t k = None" by (simp add: map_of_eq_None_iff)
  then have "map_of [(k, v)] ++ map_of t = (map_of t)(k \<mapsto> v)"
    by (intro ext) (auto simp: map_add_def split: option.splits)
  with False show ?thesis by (simp add: put_column_def)
qed

lemma put_column_columns: "snd ` set (put_column t k v) \<subseteq> insert v (snd ` set t)"
  using replace_column_columns [of t k v] by (auto simp: put_column_def)

lemma table_setitem_nonempty:
  "col \<noteq> [] \<Longrightarrow> table_setitem t col arr = Inr (put_column t col arr)"
  by (simp add: table_setitem_def add_column_def put_column_def)

lemma table_setitem_grows:
  assumes "table_setitem t c arr = Inr t'"
  shows "fst ` set t \<subseteq> fst ` set t'"
proof (cases "c \<in> set (map fst t)")
  case True
  with assms have "t' = replace_column t c arr" by (simp add: table_setitem_def)
  then have "map fst t' = map fst t" by (simp add: replace_column_names)
  then have "set (map fst t') = set (map fst t)" by simp
  then show ?thesis by simp
next
  case False
  with assms show ?thesis
    by (auto simp: table_setitem_def add_column_def Let_def split: if_splits)
qed

lemma table_setitem_other:
  assumes "table_setitem t c arr = Inr t'" and "k \<in> fst ` set t" and "c \<noteq> k"
  shows "map_of t' k = map_of t k"
proof (cases "c \<in> set (map fst t)")
  case True
  with assms(1) have "t' = replace_column t c arr" by (simp add: table_setitem_def)
  with True assms(3) show ?thesis by (simp add: map_of_replace_column)
next
  case False
  with assms(1) obtain name where t': "t' = t @ [(name, arr)]"
    by (auto simp: table_setitem_def add_column_def Let_def split: if_splits)
  from assms(2) obtain y where "map_of t k = Some y"
    by (meson domD domI map_of_eq_None_iff not_Some_eq)
  then show ?thesis by (simp add: t' map_add_def)
qed

lemma table_setitem_same:
  assumes "table_setitem t k arr = Inr t'" and "k \<noteq> []"
  shows "map_of t' k = Some arr \<and> k \<in> fst ` set t'"
proof -
  from assms have t': "t' = put_column t k arr" by (simp add: table_setitem_nonempty)
  show ?thesis by (simp add: t' map_of_put_column put_column_names)
qed

lemma setitems_Nil [simp]: "setitems [] t = t"
  by (simp add: setitems_def)

lemma setitems_Cons [simp]: "setitems ((k, v) # cols) t = setitems cols (put_column t k v)"
  by (simp add: setitems_def)



lemma setitems_fresh:
  "distinct (map fst (t @ cols)) \<Longrightarrow> setitems cols t = t @ cols"
proof (induction cols arbitrary: t)
  case Nil
  then show ?case by simp
next
  case (Cons kv cols)
  obtain k v where kv: "kv = (k, v)" by (cases kv)
  from Cons.prems have fresh: "k \<notin> fst ` set t" by (auto simp: kv)
  from Cons.prems have "distinct (map fst ((t @ [(k, v)]) @ cols))" by (auto simp: kv)
  from Cons.IH [OF this] show ?case by (simp add: kv put_column_fresh [OF fresh])
qed


lemma make_column_name:
  "make_column np data ca = Inr (k, arr) \<Longrightarrow> k = strip (fst ca)"
  by (cases ca) (auto simp: make_column_def split: sum.splits)

lemma loop_body_make_column:
  "loop_body np data t ca =
     (case make_column np data ca of Inl e \<Rightarrow> Inl e | Inr (k, arr) \<Rightarrow> table_setitem t k arr)"
  by (simp add: loop_body_def make_column_def Let_def split: prod.splits sum.splits)

lemma loop_body_Inr:
  assumes "loop_body np data t ca = Inr t'"
  shows "\<exists>arr. make_column np data ca = Inr (strip (fst ca), arr)
           \<and> table_setitem t (strip (fst ca)) arr = Inr t'"
proof (cases "make_column np data ca")
  case (Inl e)
  with assms show ?thesis by (simp add: loop_body_make_column)
next
  case (Inr kc)
  obtain k arr where kc: "kc = (k, arr)" by (cases kc)
  from Inr kc have "k = strip (fst ca)" by (simp add: make_column_name)
  with assms Inr kc show ?thesis by (simp add: loop_body_make_column)
qed

lemma for_loop_append:
  "for_loop np data t (a @ b) =
     (case for_loop np data t a of Inl e \<Rightarrow> Inl e | Inr t' \<Rightarrow> for_loop np data t' b)"
  by (induction a arbitrary: t) (auto split: sum.splits)

lemma for_loop_columns:
  assumes "for_loop np data t cas = Inr t'" and "ca \<in> set cas"
  shows "\<exists>kc. make_column np data ca = Inr kc"
  using assms
proof (induction cas arbitrary: t)
  case Nil
  then show ?case by simp
next
  case (Cons c cas)
  from Cons.prems(1) obtain t1 where t1: "loop_body np data t c = Inr t1"
    and rest: "for_loop np data t1 cas = Inr t'"
    by (auto split: sum.splits)
  from Cons.prems(2) consider "ca = c" | "ca \<in> set cas" by auto
  then show ?case
  proof cases
    case 1
    with loop_body_Inr [OF t1] show ?thesis by blast
  next
    case 2
    with Cons.IH [OF rest] show ?thesis by blast
  qed
qed

lemma for_loop_keeps:
  assumes "for_loop np data t cas = Inr t'" and "k \<in> fst ` set t"
    and "\<forall>ca\<in>set cas. strip (fst ca) \<noteq> k"
  shows "map_of t' k = map_of t k"
  using assms
proof (induction cas arbitrary: t)
  case Nil
  then show ?case by simp
next
  case (Cons c cas)
  from Cons.prems(1) obtain t1 where t1: "loop_body np data t c = Inr t1"
    and rest: "for_loop np data t1 cas = Inr t'"
    by (auto split: sum.splits)
  from loop_body_Inr [OF t1] obtain arr where
    set: "table_setitem t (strip (fst c)) arr = Inr t1" by blast
  from Cons.prems(3) have ne: "strip (fst c) \<noteq> k" by simp
  from table_setitem_other [OF set Cons.prems(2) ne] have same: "map_of t1 k = map_of t k" .
  from table_setitem_grows [OF set] Cons.prems(2) have mem: "k \<in> fst ` set t1" by blast
  from Cons.prems(3) have "\<forall>ca\<in>set cas. strip (fst ca) \<noteq> k" by simp
  from Cons.IH [OF rest mem this] same show ?case by simp
qed

lemma for_loop_convert_all:
  assumes "\<forall>ca\<in>set cas. strip (fst ca) \<noteq> []"
  shows "for_loop np data t cas =
     (case convert_all (make_column np data) cas of
        Inl e \<Rightarrow> Inl e | Inr cols \<Rightarrow> Inr (setitems cols t))"
  using assms
proof (induction cas arbitrary: t)
  case Nil
  then show ?case by simp
next
  case (Cons c cas)
  from Cons.prems have ne: "strip (fst c) \<noteq> []" and rest: "\<forall>ca\<in>set cas. strip (fst ca) \<noteq> []"
    by simp_all
  show ?case
  proof (cases "make_column np data c")
    case (Inl e)
    then show ?thesis by (simp add: loop_body_make_column)
  next
    case (Inr kc)
    obtain k arr where kc: "kc = (k, arr)" by (cases kc)
    from Inr kc have k: "k = strip (fst c)" by (simp add: make_column_name)
    with ne have "table_setitem t k arr = Inr (put_column t k arr)"
      by (simp add: table_setitem_nonempty)
    with Inr kc Cons.IH [OF rest, of "put_column t k arr"] show ?thesis
      by (simp add: loop_body_make_column split: sum.splits)
  qed
qed

lemma not_isdigit_paren: "\<not> isdigit CHR '')''"
  by (simp add: isdigit_def)

lemma match_at_marker:
  assumes "ds \<noteq> []" and "list_all isdigit ds"
  shows "match_at (''varchar('' @ ds @ '')'' @ post) = Some ds"
proof -
  have all: "\<forall>c\<in>set ds. isdigit c" using assms(2) by (simp add: list_all_iff)
  have tw: "takeWhile isdigit (ds @ CHR '')'' # post) = ds"
    using all by (simp add: takeWhile_append2 not_isdigit_paren)
  have dw: "dropWhile isdigit (ds @ CHR '')'' # post) = CHR '')'' # post"
    using all by (simp add: dropWhile_append2 not_isdigit_paren)
  show ?thesis using assms(1) by (simp add: match_at_def tw dw)
qed

lemma match_at_Nil: "match_at [] = None"
  by (simp add: match_at_def)

lemma match_at_Some:
  assumes "match_at s = Some ds"
  shows "prefix ''varchar'' s \<and> ds \<noteq> [] \<and> list_all isdigit ds"
proof -
  from assms have p: "prefix ''varchar('' s" and ds: "ds = takeWhile isdigit (drop 8 s)" and ne: "ds \<noteq> []"
    by (auto simp: match_at_def Let_def split: if_splits)
  have "prefix ''varchar'' ''varchar(''" by simp
  from this p have "prefix ''varchar'' s" by (rule prefix_order.trans)
  moreover have "list_all isdigit ds"
    unfolding ds list_all_iff by (auto dest: set_takeWhileD)
  ultimately show ?thesis using ne by simp
qed

lemma rx_search_leftmost:
  assumes "match_at m = Some ds" and "\<forall>p<length pre. match_at (drop p (pre @ m)) = None"
  shows "rx_search (pre @ m) = Some ds"
  using assms(2)
proof (induction pre)
  case Nil
  from assms(1) obtain c cs where "m = c # cs" by (cases m) (auto simp: match_at_Nil)
  with assms(1) show ?case by simp
next
  case (Cons c pre)
  from Cons.prems have "match_at (drop 0 ((c # pre) @ m)) = None" by blast
  then have here: "match_at (c # pre @ m) = None" by simp
  have "\<forall>p<length pre. match_at (drop p (pre @ m)) = None"
  proof (intro allI impI)
    fix p assume "p < length pre"
    then have "Suc p < length (c # pre)" by simp
    with Cons.prems have "match_at (drop (Suc p) ((c # pre) @ m)) = None" by blast
    then show "match_at (drop p (pre @ m)) = None" by simp
  qed
  from Cons.IH [OF this] here show ?case by simp
qed

lemma rx_search_Some:
  "rx_search s = Some ds \<Longrightarrow> contains ''varchar'' s \<and> ds \<noteq> [] \<and> list_all isdigit ds"
proof (induction s)
  case Nil
  then show ?case by simp
next
  case (Cons c cs)
  show ?case
  proof (cases "match_at (c # cs)")
    case None
    with Cons show ?thesis by simp
  next
    case (Some g)
    with Cons.prems have "g = ds" by simp
    with Some match_at_Some [of "c # cs" ds] show ?thesis by simp
  qed
qed

lemma np_dtype_U:
  "list_all isdigit ds \<Longrightarrow> np_dtype np (''U'' @ ds) = Some (Unicode (nat_of_digits ds))"
  by (simp add: np_dtype_def)

lemma declared_width_storage:
  assumes "declared_width atype = Some n"
  shows "storage_dtype np atype = Inr (Unicode n)"
proof -
  from assms obtain ds where c: "contains ''varchar'' atype" and r: "rx_search atype = Some ds"
    and n: "n = nat_of_digits ds"
    by (auto simp: declared_width_def split: if_splits)
  from rx_search_Some [OF r] have d: "list_all isdigit ds" by simp
  have "''U'' @ ds \<noteq> ''real''" by simp
  then show ?thesis
    using c r n np_dtype_U [OF d, of np] by (simp add: storage_dtype_def storage_name_def)
qed

lemma storage_dtype_real: "storage_dtype np ''real'' = Inr Float64"
  by (simp add: storage_dtype_def storage_name_def np_dtype_def isdigit_def)

lemma declared_width_marker:
  assumes "atype = pre @ ''varchar('' @ ds @ '')'' @ post" and "ds \<noteq> []" and "list_all isdigit ds"
    and "\<forall>p<length pre. match_at (drop p atype) = None"
  shows "declared_width atype = Some (nat_of_digits ds)"
proof -
  have m: "match_at (''varchar('' @ ds @ '')'' @ post) = Some ds"
    using assms(2,3) by (rule match_at_marker)
  from assms(4) have "\<forall>p<length pre. match_at (drop p (pre @ ''varchar('' @ ds @ '')'' @ post)) = None"
    by (simp add: assms(1))
  from rx_search_leftmost [OF m this] have r: "rx_search atype = Some ds" by (simp add: assms(1))
  from rx_search_Some [OF r] r show ?thesis by (simp add: declared_width_def)
qed

lemma storage_dtype_bad:
  assumes "rx_search atype = None" and "atype \<noteq> ''real''" and "np_dtype np atype = None"
  shows "storage_dtype np atype =
           Inl (if contains ''varchar'' atype then AttributeError_group else TypeError_dtype)"
  using assms by (simp add: storage_dtype_def storage_name_def)

lemma make_column_Inr_iff:
  "make_column np data (colname x, datatype' x) = Inr kc \<longleftrightarrow>
     fst kc = column_name x \<and> column_for np data x = Inr (snd kc)"
  by (cases kc) (auto simp: column_for_def column_name_def make_column_def split: sum.splits)

lemma make_column_Inl_iff:
  "make_column np data (colname x, datatype' x) = Inl e \<longleftrightarrow> column_for np data x = Inl e"
  by (cases "make_column np data (colname x, datatype' x)") (simp_all add: column_for_def)

lemma column_for_Inr_iff:
  "column_for np data x = Inr c \<longleftrightarrow>
     (\<exists>dt. storage_dtype np (datatype' x) = Inr dt
        \<and> col_dtype c = result_dtype np dt (map (\<lambda>r. dict_get r (column_name x)) data)
        \<and> list_all2 (\<lambda>r cell. cell_of np dt (dict_get r (column_name x)) = Inr cell) data (col_data c))"
proof -
  have conv: "\<And>dt cs.
      list_all2 (\<lambda>r cell. cell_of np dt (dict_get r (column_name x)) = Inr cell) data cs \<longleftrightarrow>
      cells_of np dt (map (\<lambda>r. dict_get r (column_name x)) data) = Inr cs"
    by (simp add: cells_of_def convert_all_Inr_iff list_all2_map1)
  show ?thesis
    unfolding conv
    by (cases c)
      (auto simp: column_for_def column_name_def make_column_def np_array_def storage_dtype_def
        split: sum.splits option.splits)
qed

lemma column_for_length:
  "column_for np data x = Inr c \<Longrightarrow> length (col_data c) = length data"
  by (auto simp: column_for_Inr_iff dest: list_all2_lengthD)

lemma column_for_total:
  assumes "storage_dtype np (datatype' x) = Inr dt"
    and "\<forall>r\<in>set data. \<exists>cell. cell_of np dt (dict_get r (column_name x)) = Inr cell"
  shows "\<exists>c. column_for np data x = Inr c"
proof -
  from assms(2) have "\<forall>v\<in>set (map (\<lambda>r. dict_get r (column_name x)) data). \<exists>cell. cell_of np dt v = Inr cell"
    by simp
  from convert_all_total [OF this] obtain cs
    where "cells_of np dt (map (\<lambda>r. dict_get r (column_name x)) data) = Inr cs"
    by (auto simp: cells_of_def)
  with assms(1) show ?thesis
    by (auto simp: column_for_def column_name_def make_column_def np_array_def storage_dtype_def
        split: sum.splits option.splits)
qed

lemma column_for_storage_error:
  assumes "storage_dtype np (datatype' x) = Inl e"
  shows "column_for np data x = Inl e"
  using assms
  by (auto simp: column_for_def make_column_def np_array_def storage_dtype_def
      split: sum.splits option.splits)

lemma column_for_no_rows:
  "column_for np [] x = Inl e \<Longrightarrow> type_mapping_error e"
  by (auto simp: column_for_def make_column_def np_array_def storage_name_def cells_of_def
      type_mapping_error_def split: sum.splits option.splits if_splits)

lemma column_for_cell:
  assumes "column_for np data x = Inr c" and "storage_dtype np (datatype' x) = Inr dt"
    and "i < length data"
  shows "cell_of np dt (dict_get (data ! i) (column_name x)) = Inr (col_data c ! i)"
  using assms by (auto simp: column_for_Inr_iff list_all2_conv_all_nth)

lemma column_for_dtype:
  assumes "column_for np data x = Inr c" and "storage_dtype np (datatype' x) = Inr dt"
  shows "col_dtype c = result_dtype np dt (map (\<lambda>r. dict_get r (column_name x)) data)"
  using assms by (auto simp: column_for_Inr_iff)

lemma column_for_text:
  assumes "storage_dtype np (datatype' x) = Inr (Unicode n)" and "0 < n"
  shows "column_for np data x =
           Inr \<lparr>col_dtype = Unicode n,
                col_data = map (\<lambda>r. TextCell (drop_trailing_nul
                                 (take n (py_str np (dict_get r (column_name x)))))) data\<rparr>"
proof -
  have "cell_of np (Unicode n) = (\<lambda>v. Inr (TextCell (drop_trailing_nul (take n (py_str np v)))))"
    using assms(2) by (intro ext) (simp add: cell_of_def)
  then have "cells_of np (Unicode n) (map (\<lambda>r. dict_get r (column_name x)) data)
          = Inr (map (\<lambda>r. TextCell (drop_trailing_nul
                         (take n (py_str np (dict_get r (column_name x)))))) data)"
    by (simp add: cells_of_def convert_all_Inr_map comp_def)
  with assms show ?thesis
    by (auto simp: column_for_def column_name_def make_column_def np_array_def storage_dtype_def
        result_dtype_def split: sum.splits option.splits)
qed

lemma column_for_flexible:
  assumes "storage_dtype np (datatype' x) = Inr (Unicode 0)"
  shows "\<exists>w. column_for np data x =
           Inr \<lparr>col_dtype = Unicode w,
                col_data = map (\<lambda>r. TextCell (drop_trailing_nul
                                 (py_str np (dict_get r (column_name x))))) data\<rparr>"
proof -
  have "cell_of np (Unicode 0) = (\<lambda>v. Inr (TextCell (drop_trailing_nul (py_str np v))))"
    by (intro ext) (simp add: cell_of_def)
  then have "cells_of np (Unicode 0) (map (\<lambda>r. dict_get r (column_name x)) data)
          = Inr (map (\<lambda>r. TextCell (drop_trailing_nul
                         (py_str np (dict_get r (column_name x))))) data)"
    by (simp add: cells_of_def convert_all_Inr_map comp_def)
  with assms show ?thesis
    by (auto simp: column_for_def column_name_def make_column_def np_array_def storage_dtype_def
        result_dtype_def split: sum.splits option.splits)
qed

lemma fields_nonempty:
  assumes "\<forall>x\<in>set fields'. column_name x \<noteq> []"
  shows "\<forall>ca\<in>set (map (\<lambda>x. (colname x, datatype' x)) fields'). strip (fst ca) \<noteq> []"
  using assms by (auto simp: column_name_def)

lemma json_to_table_convert_all:
  assumes "\<forall>x\<in>set fields'. column_name x \<noteq> []"
  shows "json_to_table np fields' data =
     (case convert_all (make_column np data) (map (\<lambda>x. (colname x, datatype' x)) fields') of
        Inl e \<Rightarrow> Inl e | Inr cols \<Rightarrow> Inr (setitems cols []))"
  unfolding json_to_table_def by (rule for_loop_convert_all) (rule fields_nonempty [OF assms])

lemma json_to_table_Inr_iff:
  assumes "\<forall>x\<in>set fields'. column_name x \<noteq> []"
  shows "json_to_table np fields' data = Inr t \<longleftrightarrow>
     (\<exists>cols. list_all2 (\<lambda>x kc. fst kc = column_name x \<and> column_for np data x = Inr (snd kc)) fields' cols
        \<and> t = setitems cols [])"
proof -
  have conv: "\<And>cols.
      list_all2 (\<lambda>x kc. fst kc = column_name x \<and> column_for np data x = Inr (snd kc)) fields' cols \<longleftrightarrow>
      convert_all (make_column np data) (map (\<lambda>x. (colname x, datatype' x)) fields') = Inr cols"
    by (simp add: convert_all_Inr_iff list_all2_map1 make_column_Inr_iff)
  show ?thesis
    unfolding conv by (auto simp: json_to_table_convert_all [OF assms] split: sum.splits)
qed

lemma json_to_table_total:
  assumes ne: "\<forall>x\<in>set fields'. column_name x \<noteq> []"
    and "\<forall>x\<in>set fields'. \<exists>c. column_for np data x = Inr c"
  shows "\<exists>t. json_to_table np fields' data = Inr t"
proof -
  have "\<forall>ca\<in>set (map (\<lambda>x. (colname x, datatype' x)) fields'). \<exists>kc. make_column np data ca = Inr kc"
  proof
    fix ca assume "ca \<in> set (map (\<lambda>x. (colname x, datatype' x)) fields')"
    then obtain x where x: "x \<in> set fields'" "ca = (colname x, datatype' x)" by auto
    with assms(2) obtain c where "column_for np data x = Inr c" by blast
    then have "make_column np data ca = Inr (column_name x, c)"
      by (simp add: x(2) make_column_Inr_iff)
    then show "\<exists>kc. make_column np data ca = Inr kc" by blast
  qed
  from convert_all_total [OF this] show ?thesis
    by (auto simp: json_to_table_convert_all [OF ne])
qed

lemma json_to_table_columns:
  assumes "json_to_table np fields' data = Inr t" and "x \<in> set fields'"
  shows "\<exists>c. column_for np data x = Inr c"
proof -
  have mem: "(colname x, datatype' x) \<in> set (map (\<lambda>x. (colname x, datatype' x)) fields')"
    using assms(2) by auto
  from assms(1) have "for_loop np data [] (map (\<lambda>x. (colname x, datatype' x)) fields') = Inr t"
    by (simp add: json_to_table_def)
  from for_loop_columns [OF this mem] obtain kc
    where "make_column np data (colname x, datatype' x) = Inr kc" by blast
  then show ?thesis by (auto simp: make_column_Inr_iff)
qed

lemma json_to_table_fails:
  assumes "x \<in> set fields'" and "column_for np data x = Inl e"
  shows "\<exists>e'. json_to_table np fields' data = Inl e'"
proof (cases "json_to_table np fields' data")
  case (Inl e')
  then show ?thesis by blast
next
  case (Inr t)
  from json_to_table_columns [OF Inr assms(1)] assms(2) show ?thesis by simp
qed

lemma json_to_table_first_failure:
  assumes "json_to_table np pre data = Inr t" and "column_for np data x = Inl e"
  shows "json_to_table np (pre @ x # post) data = Inl e"
proof -
  from assms(1) have a: "for_loop np data [] (map (\<lambda>x. (colname x, datatype' x)) pre) = Inr t"
    by (simp add: json_to_table_def)
  from assms(2) have "make_column np data (colname x, datatype' x) = Inl e"
    by (simp add: make_column_Inl_iff)
  then have "loop_body np data t (colname x, datatype' x) = Inl e"
    by (simp add: loop_body_make_column)
  with a show ?thesis by (simp add: json_to_table_def for_loop_append)
qed

lemma json_to_table_Inl_source:
  assumes ne: "\<forall>x\<in>set fields'. column_name x \<noteq> []"
    and "json_to_table np fields' data = Inl e"
  shows "\<exists>x\<in>set fields'. column_for np data x = Inl e"
proof -
  from assms(2) have
    "convert_all (make_column np data) (map (\<lambda>x. (colname x, datatype' x)) fields') = Inl e"
    by (simp add: json_to_table_convert_all [OF ne] split: sum.splits)
  from convert_all_Inl_source [OF this] show ?thesis
    by (auto simp: make_column_Inl_iff)
qed

lemma json_to_table_no_rows_error:
  assumes "\<forall>x\<in>set fields'. column_name x \<noteq> []" and "json_to_table np fields' [] = Inl e"
  shows "type_mapping_error e"
proof -
  from json_to_table_Inl_source [OF assms] obtain x where "column_for np [] x = Inl e" by blast
  then show ?thesis by (rule column_for_no_rows)
qed

lemma table_lookup_last:
  assumes t: "json_to_table np fields' data = Inr t" and j: "j < length fields'"
    and ne: "column_name (fields' ! j) \<noteq> []"
    and last: "\<forall>j'. j < j' \<and> j' < length fields' \<longrightarrow>
                 column_name (fields' ! j') \<noteq> column_name (fields' ! j)"
  shows "\<exists>c. column_for np data (fields' ! j) = Inr c
           \<and> map_of t (column_name (fields' ! j)) = Some c"
proof -
  let ?g = "\<lambda>x. (colname x, datatype' x)"
  let ?k = "column_name (fields' ! j)"
  let ?pre = "map ?g (take j fields')" and ?post = "map ?g (drop (Suc j) fields')"
  have "fields' = take j fields' @ fields' ! j # drop (Suc j) fields'"
    using j by (rule id_take_nth_drop)
  then have "map ?g fields' = map ?g (take j fields' @ fields' ! j # drop (Suc j) fields')"
    by (rule arg_cong)
  then have split: "map ?g fields' = ?pre @ ?g (fields' ! j) # ?post" by simp
  from t have whole: "for_loop np data [] (?pre @ ?g (fields' ! j) # ?post) = Inr t"
    unfolding json_to_table_def split .
  obtain t0 where t0: "for_loop np data [] ?pre = Inr t0"
  proof (cases "for_loop np data [] ?pre")
    case (Inl e)
    with whole show ?thesis by (simp add: for_loop_append)
  next
    case (Inr t0)
    with that show ?thesis by blast
  qed
  from whole t0 have step: "for_loop np data t0 (?g (fields' ! j) # ?post) = Inr t"
    by (simp add: for_loop_append)
  obtain t1 where t1: "loop_body np data t0 (?g (fields' ! j)) = Inr t1"
  proof (cases "loop_body np data t0 (?g (fields' ! j))")
    case (Inl e)
    with step show ?thesis by simp
  next
    case (Inr t1)
    with that show ?thesis by blast
  qed
  from step t1 have rest: "for_loop np data t1 ?post = Inr t" by simp
  from loop_body_Inr [OF t1] obtain c where
    mk: "make_column np data (?g (fields' ! j)) = Inr (?k, c)"
    and set: "table_setitem t0 ?k c = Inr t1"
    by (auto simp: column_name_def)
  from table_setitem_same [OF set ne] have here: "map_of t1 ?k = Some c" and mem: "?k \<in> fst ` set t1"
    by simp_all
  have later: "\<forall>ca\<in>set (map ?g (drop (Suc j) fields')). strip (fst ca) \<noteq> ?k"
  proof
    fix ca assume "ca \<in> set (map ?g (drop (Suc j) fields'))"
    then obtain i where i: "i < length (drop (Suc j) fields')" "ca = ?g (drop (Suc j) fields' ! i)"
      by (auto simp: in_set_conv_nth)
    from i(1) have b: "Suc j + i < length fields'" by simp
    with last have "column_name (fields' ! (Suc j + i)) \<noteq> ?k" by simp
    with i b show "strip (fst ca) \<noteq> ?k" by (simp add: column_name_def)
  qed
  from for_loop_keeps [OF rest mem later] here have "map_of t ?k = Some c" by simp
  moreover from mk have "column_for np data (fields' ! j) = Inr c"
    by (simp add: make_column_Inr_iff)
  ultimately show ?thesis by blast
qed

lemma drop_trailing_nul_id: "CHR 0x00 \<notin> set s \<Longrightarrow> drop_trailing_nul s = s"
proof (cases "rev s")
  case Nil
  then show ?thesis by (simp add: drop_trailing_nul_def)
next
  case (Cons c cs)
  assume "CHR 0x00 \<notin> set s"
  moreover from Cons have "c \<in> set s" by (metis list.set_intros(1) set_rev)
  ultimately have "c \<noteq> CHR 0x00" by auto
  with Cons have "dropWhile (\<lambda>c. c = CHR 0x00) (rev s) = rev s" by simp
  then show ?thesis by (simp add: drop_trailing_nul_def)
qed

lemma drop_trailing_nul_None: "drop_trailing_nul (take n ''None'') = take n ''None''"
proof (rule drop_trailing_nul_id)
  show "CHR 0x00 \<notin> set (take n ''None'')"
  proof
    assume "CHR 0x00 \<in> set (take n ''None'')"
    then have "CHR 0x00 \<in> set ''None''" by (rule in_set_takeD)
    then show False by simp
  qed
qed

lemma schema_fidelity_aux:
  assumes d: "distinct (map column_name fields')"
    and ne: "\<forall>x\<in>set fields'. column_name x \<noteq> []"
    and ok: "\<forall>x\<in>set fields'. \<exists>dt. storage_dtype np (datatype' x) = Inr dt
              \<and> (\<forall>r\<in>set data. \<exists>cell. cell_of np dt (dict_get r (column_name x)) = Inr cell)"
  shows "\<exists>t. json_to_table np fields' data = Inr t \<and> length t = length fields'
           \<and> map fst t = map (\<lambda>x. strip (colname x)) fields'
           \<and> (\<forall>c\<in>snd ` set t. length (col_data c) = length data)"
proof -
  have "\<forall>x\<in>set fields'. \<exists>c. column_for np data x = Inr c"
    using ok column_for_total by blast
  from json_to_table_total [OF ne this] obtain t where t: "json_to_table np fields' data = Inr t"
    by blast
  then obtain cols where
    all: "list_all2 (\<lambda>x kc. fst kc = column_name x \<and> column_for np data x = Inr (snd kc)) fields' cols"
    and tab: "t = setitems cols []"
    by (auto simp: json_to_table_Inr_iff [OF ne])
  from all have len: "length cols = length fields'" by (simp add: list_all2_lengthD)
  from all have nth: "\<And>i. i < length fields' \<Longrightarrow>
      fst (cols ! i) = column_name (fields' ! i) \<and> column_for np data (fields' ! i) = Inr (snd (cols ! i))"
    by (simp add: list_all2_conv_all_nth)
  have names: "map fst cols = map column_name fields'"
    using len nth by (intro nth_equalityI) simp_all
  with d have "distinct (map fst ([] @ cols))" by simp
  from setitems_fresh [OF this] tab have tc: "t = cols" by simp
  have "\<forall>c\<in>snd ` set t. length (col_data c) = length data"
  proof
    fix c assume "c \<in> snd ` set t"
    then obtain i where "i < length cols" "c = snd (cols ! i)"
      by (auto simp: tc in_set_conv_nth)
    with nth [of i] len show "length (col_data c) = length data"
      by (auto dest: column_for_length)
  qed
  with t tc len names show ?thesis by (simp add: column_name_def)
qed


lemma varchar_column:
  assumes t: "json_to_table np fields' data = Inr t" and j: "j < length fields'"
    and ne: "column_name (fields' ! j) \<noteq> []"
    and last: "\<forall>j'. j < j' \<and> j' < length fields' \<longrightarrow>
                 column_name (fields' ! j') \<noteq> column_name (fields' ! j)"
    and w: "declared_width (datatype' (fields' ! j)) = Some n" and n: "0 < n"
  shows "map_of t (column_name (fields' ! j)) =
           Some \<lparr>col_dtype = Unicode n,
                 col_data = map (\<lambda>r. TextCell (drop_trailing_nul
                     (take n (py_str np (dict_get r (column_name (fields' ! j))))))) data\<rparr>"
proof -
  from table_lookup_last [OF t j ne last] obtain c
    where c: "column_for np data (fields' ! j) = Inr c"
      and m: "map_of t (column_name (fields' ! j)) = Some c"
    by blast
  from declared_width_storage [OF w] have "storage_dtype np (datatype' (fields' ! j)) = Inr (Unicode n)" .
  from column_for_text [OF this n, of data] c m show ?thesis by simp
qed

lemma flexible_column:
  assumes t: "json_to_table np fields' data = Inr t" and j: "j < length fields'"
    and ne: "column_name (fields' ! j) \<noteq> []"
    and last: "\<forall>j'. j < j' \<and> j' < length fields' \<longrightarrow>
                 column_name (fields' ! j') \<noteq> column_name (fields' ! j)"
    and w: "declared_width (datatype' (fields' ! j)) = Some 0"
  shows "\<exists>w. map_of t (column_name (fields' ! j)) =
           Some \<lparr>col_dtype = Unicode w,
                 col_data = map (\<lambda>r. TextCell (drop_trailing_nul
                     (py_str np (dict_get r (column_name (fields' ! j)))))) data\<rparr>"
proof -
  from table_lookup_last [OF t j ne last] obtain c
    where c: "column_for np data (fields' ! j) = Inr c"
      and m: "map_of t (column_name (fields' ! j)) = Some c"
    by blast
  from declared_width_storage [OF w] have "storage_dtype np (datatype' (fields' ! j)) = Inr (Unicode 0)" .
  from column_for_flexible [OF this, of data] c m show ?thesis by auto
qed

lemma real_column_missing:
  assumes t: "json_to_table np fields' data = Inr t" and j: "j < length fields'"
    and ne: "column_name (fields' ! j) \<noteq> []"
    and last: "\<forall>j'. j < j' \<and> j' < length fields' \<longrightarrow>
                 column_name (fields' ! j') \<noteq> column_name (fields' ! j)"
    and r: "datatype' (fields' ! j) = ''real''"
    and i: "i < length data" and miss: "(data ! i) (column_name (fields' ! j)) = None"
  shows "\<exists>c. map_of t (column_name (fields' ! j)) = Some c \<and> col_dtype c = Float64
           \<and> col_data c ! i = FloatCell NaN"
proof -
  from table_lookup_last [OF t j ne last] obtain c
    where c: "column_for np data (fields' ! j) = Inr c"
      and m: "map_of t (column_name (fields' ! j)) = Some c"
    by blast
  have s: "storage_dtype np (datatype' (fields' ! j)) = Inr Float64"
    by (simp add: r storage_dtype_real)
  from column_for_cell [OF c s i] miss have "col_data c ! i = FloatCell NaN"
    by (simp add: cell_of_def dict_get_def to_float_def)
  moreover from column_for_dtype [OF c s] have "col_dtype c = Float64"
    by (simp add: result_dtype_def)
  ultimately show ?thesis using m by simp
qed

lemma cell_of_None_mapped:
  "dt = Float64 \<or> (\<exists>n. dt = Unicode n) \<Longrightarrow> \<exists>cell. cell_of np dt PNone = Inr cell"
  by (auto simp: cell_of_def to_float_def)

lemma column_aligned:
  assumes t: "json_to_table np fields' data = Inr t" and j: "j < length fields'"
    and ne: "column_name (fields' ! j) \<noteq> []"
    and last: "\<forall>j'. j < j' \<and> j' < length fields' \<longrightarrow>
                 column_name (fields' ! j') \<noteq> column_name (fields' ! j)"
  shows "\<exists>c dt. map_of t (column_name (fields' ! j)) = Some c
           \<and> storage_dtype np (datatype' (fields' ! j)) = Inr dt
           \<and> length (col_data c) = length data
           \<and> (\<forall>i<length data.
                 cell_of np dt (dict_get (data ! i) (column_name (fields' ! j))) = Inr (col_data c ! i))"
proof -
  from table_lookup_last [OF t j ne last] obtain c
    where c: "column_for np data (fields' ! j) = Inr c"
      and m: "map_of t (column_name (fields' ! j)) = Some c"
    by blast
  from c obtain dt where s: "storage_dtype np (datatype' (fields' ! j)) = Inr dt"
    by (auto simp: column_for_Inr_iff)
  have "\<forall>i<length data.
          cell_of np dt (dict_get (data ! i) (column_name (fields' ! j))) = Inr (col_data c ! i)"
    using column_for_cell [OF c s] by blast
  with m s column_for_length [OF c] show ?thesis by blast
qed

lemma dropped_keys_total:
  assumes t: "json_to_table np fields' data = Inr t"
    and ne: "\<forall>x\<in>set fields'. column_name x \<noteq> []"
    and mapped: "\<forall>x\<in>set fields'. storage_dtype np (datatype' x) = Inr Float64
                   \<or> (\<exists>n. storage_dtype np (datatype' x) = Inr (Unicode n))"
    and len: "length data' = length data"
    and sub: "\<forall>i<length data. \<forall>k. (data' ! i) k = None \<or> (data' ! i) k = (data ! i) k"
  shows "\<exists>t'. json_to_table np fields' data' = Inr t'"
proof -
  have "\<forall>x\<in>set fields'. \<exists>c. column_for np data' x = Inr c"
  proof
    fix x assume x: "x \<in> set fields'"
    from json_to_table_columns [OF t x] obtain c where c: "column_for np data x = Inr c" by blast
    then obtain dt where s: "storage_dtype np (datatype' x) = Inr dt"
      by (auto simp: column_for_Inr_iff)
    from mapped x have "storage_dtype np (datatype' x) = Inr Float64
        \<or> (\<exists>n. storage_dtype np (datatype' x) = Inr (Unicode n))" by blast
    then have dt: "dt = Float64 \<or> (\<exists>n. dt = Unicode n)" unfolding s by simp
    have "\<forall>r\<in>set data'. \<exists>cell. cell_of np dt (dict_get r (column_name x)) = Inr cell"
    proof
      fix r assume "r \<in> set data'"
      then obtain i where i: "i < length data" "r = data' ! i"
        using len by (auto simp: in_set_conv_nth)
      from sub i(1) have "(data' ! i) (column_name x) = None
          \<or> (data' ! i) (column_name x) = (data ! i) (column_name x)" by blast
      then show "\<exists>cell. cell_of np dt (dict_get r (column_name x)) = Inr cell"
      proof
        assume "(data' ! i) (column_name x) = None"
        then have "dict_get r (column_name x) = PNone" by (simp add: i(2) dict_get_def)
        with cell_of_None_mapped [OF dt] show ?thesis by simp
      next
        assume "(data' ! i) (column_name x) = (data ! i) (column_name x)"
        then have "dict_get r (column_name x) = dict_get (data ! i) (column_name x)"
          by (simp add: i(2) dict_get_def)
        with column_for_cell [OF c s i(1)] show ?thesis by simp
      qed
    qed
    with s show "\<exists>c. column_for np data' x = Inr c" by (rule column_for_total)
  qed
  with ne show ?thesis by (rule json_to_table_total)
qed

lemmas eval_defs = json_to_table_def loop_body_def storage_name_def match_at_def strip_def
  isspace_def isdigit_def np_array_def np_dtype_def cells_of_def cell_of_def result_dtype_def
  dict_get_def py_str_def to_float_def to_int_def fits_int64_def nat_of_digits_def digit_value_def
  numpy_core_def float_of_str_def sign_rest_def lower_def floatnumber_def digitpart_def
  int_of_str_def column_name_def storage_dtype_def declared_width_def table_setitem_def
  add_column_def str_nat.simps number_strip_def number_space_def drop_trailing_nul_def
  mantissa_def scale10_def exponent_rest_def column_for_def make_column_def type_mapping_error_def
  fl64_def round64_def ulp_def round_even_def pow2_def exponent_def bit_length.simps

section \<open>Claims about the nearest time index\<close>

text \<open>
  C1, as the code has it. For a non-empty \<open>TIME\<close> column of finite floats and a finite
  float query, \<open>find_index\<close> returns the first index at which the distance that numpy
  computes, the absolute value of the rounded difference, is least. When every difference
  is computed without rounding, that is the first index of the timestamp with the least
  absolute difference from the query; then, for a query at or below every timestamp it is
  an index of the least timestamp, and index 0 when the column is sorted, and for a query
  at or above every timestamp it is an index of the greatest timestamp, the last one of a
  sorted column, and the last index when the timestamps are also distinct. On
  [1330, 1332, 1334, 1336] the queries 1334.9 (as a float), 1331 and 2000 give 2, 0 and 3.
\<close>

theorem find_index_nearest:
  "(TIME tbl = map Finite ts \<and> ts \<noteq> [] \<longrightarrow>
     (\<exists>i. find_index tbl (Finite q) = Inr i \<and> i < length ts
       \<and> (\<forall>j<length ts. float_le (fabs (fsub (Finite (ts ! i)) (Finite q)))
                                 (fabs (fsub (Finite (ts ! j)) (Finite q))))
       \<and> (\<forall>j<i. \<not> float_le (fabs (fsub (Finite (ts ! j)) (Finite q)))
                           (fabs (fsub (Finite (ts ! i)) (Finite q))))
       \<and> ((\<forall>j<length ts. fsub (Finite (ts ! j)) (Finite q) = Finite (ts ! j - q)) \<longrightarrow>
            (\<forall>j<length ts. \<bar>ts ! i - q\<bar> \<le> \<bar>ts ! j - q\<bar>)
          \<and> (\<forall>j<i. \<bar>ts ! i - q\<bar> < \<bar>ts ! j - q\<bar>)
          \<and> ((\<forall>t\<in>set ts. q \<le> t) \<longrightarrow> ts ! i = Min (set ts))
          \<and> ((\<forall>t\<in>set ts. t \<le> q) \<longrightarrow> ts ! i = Max (set ts))
          \<and> (sorted ts \<and> q \<le> hd ts \<longrightarrow> i = 0)
          \<and> (sorted ts \<and> last ts \<le> q \<longrightarrow>
                ts ! i = last ts \<and> (distinct ts \<longrightarrow> i = length ts - 1)))))
   \<and> find_index \<lparr>TIME = map Finite [1330, 1332, 1334, 1336], FLUX = fl\<rparr> (fl64 1334.9) = Inr 2
   \<and> find_index \<lparr>TIME = map Finite [1330, 1332, 1334, 1336], FLUX = fl\<rparr> (Finite 1331) = Inr 0
   \<and> find_index \<lparr>TIME = map Finite [1330, 1332, 1334, 1336], FLUX = fl\<rparr> (Finite 2000) = Inr 3"
proof (intro conjI impI)
  assume a: "TIME tbl = map Finite ts \<and> ts \<noteq> []"
  then have time: "TIME tbl = map Finite ts" and ne: "ts \<noteq> []" by simp_all
  from find_index_spec [OF ne time, of q] obtain i where i: "find_index tbl (Finite q) = Inr i"
    "i < length ts"
    and least: "\<forall>j<length ts. float_le (fabs (fsub (Finite (ts ! i)) (Finite q)))
                                 (fabs (fsub (Finite (ts ! j)) (Finite q)))"
    and first: "\<forall>j<i. \<not> float_le (fabs (fsub (Finite (ts ! j)) (Finite q)))
                           (fabs (fsub (Finite (ts ! i)) (Finite q)))"
    by blast
  have exact: "(\<forall>j<length ts. \<bar>ts ! i - q\<bar> \<le> \<bar>ts ! j - q\<bar>)
          \<and> (\<forall>j<i. \<bar>ts ! i - q\<bar> < \<bar>ts ! j - q\<bar>)
          \<and> ((\<forall>t\<in>set ts. q \<le> t) \<longrightarrow> ts ! i = Min (set ts))
          \<and> ((\<forall>t\<in>set ts. t \<le> q) \<longrightarrow> ts ! i = Max (set ts))
          \<and> (sorted ts \<and> q \<le> hd ts \<longrightarrow> i = 0)
          \<and> (sorted ts \<and> last ts \<le> q \<longrightarrow>
                ts ! i = last ts \<and> (distinct ts \<longrightarrow> i = length ts - 1))"
    if ex: "\<forall>j<length ts. fsub (Finite (ts ! j)) (Finite q) = Finite (ts ! j - q)"
  proof -
    from find_index_exact [OF ne time ex] i(1) have
      l: "\<forall>j<length ts. \<bar>ts ! i - q\<bar> \<le> \<bar>ts ! j - q\<bar>" and f: "\<forall>j<i. \<bar>ts ! i - q\<bar> < \<bar>ts ! j - q\<bar>"
      by auto
    from nearest_endpoints [OF ne i(2) l f] l f show ?thesis by blast
  qed
  from i least first exact
  show "\<exists>i. find_index tbl (Finite q) = Inr i \<and> i < length ts
       \<and> (\<forall>j<length ts. float_le (fabs (fsub (Finite (ts ! i)) (Finite q)))
                                 (fabs (fsub (Finite (ts ! j)) (Finite q))))
       \<and> (\<forall>j<i. \<not> float_le (fabs (fsub (Finite (ts ! j)) (Finite q)))
                           (fabs (fsub (Finite (ts ! i)) (Finite q))))
       \<and> ((\<forall>j<length ts. fsub (Finite (ts ! j)) (Finite q) = Finite (ts ! j - q)) \<longrightarrow>
            (\<forall>j<length ts. \<bar>ts ! i - q\<bar> \<le> \<bar>ts ! j - q\<bar>)
          \<and> (\<forall>j<i. \<bar>ts ! i - q\<bar> < \<bar>ts ! j - q\<bar>)
          \<and> ((\<forall>t\<in>set ts. q \<le> t) \<longrightarrow> ts ! i = Min (set ts))
          \<and> ((\<forall>t\<in>set ts. t \<le> q) \<longrightarrow> ts ! i = Max (set ts))
          \<and> (sorted ts \<and> q \<le> hd ts \<longrightarrow> i = 0)
          \<and> (sorted ts \<and> last ts \<le> q \<longrightarrow>
                ts ! i = last ts \<and> (distinct ts \<longrightarrow> i = length ts - 1)))"
    by blast
next
  show "find_index \<lparr>TIME = map Finite [1330, 1332, 1334, 1336], FLUX = fl\<rparr> (fl64 1334.9) = Inr 2"
    by (simp add: find_index_def argmin_def float_eval)
next
  show "find_index \<lparr>TIME = map Finite [1330, 1332, 1334, 1336], FLUX = fl\<rparr> (Finite 1331) = Inr 0"
    by (simp add: find_index_def argmin_def float_eval)
next
  show "find_index \<lparr>TIME = map Finite [1330, 1332, 1334, 1336], FLUX = fl\<rparr> (Finite 2000) = Inr 3"
    by (simp add: find_index_def argmin_def float_eval)
qed

theorem find_index_nearest_witness:
  "find_index \<lparr>TIME = map Finite [1330, 1332, 1334, 1336], FLUX = [()]\<rparr> (Finite 2000) = Inr 3
   \<and> fsub (Finite 1330) (Finite 2000) = Finite (1330 - 2000)
   \<and> fsub (Finite 1332) (Finite 2000) = Finite (1332 - 2000)
   \<and> fsub (Finite 1334) (Finite 2000) = Finite (1334 - 2000)
   \<and> fsub (Finite 1336) (Finite 2000) = Finite (1336 - 2000)
   \<and> sorted [1330, 1332, 1334, 1336 :: real] \<and> distinct [1330, 1332, 1334, 1336 :: real]
   \<and> last [1330, 1332, 1334, 1336] \<le> (2000 :: real)"
proof -
  let ?ts = "[1330, 1332, 1334, 1336 :: real]"
  let ?tbl = "\<lparr>TIME = map Finite ?ts, FLUX = [()]\<rparr>"
  have e0: "fsub (Finite 1330) (Finite 2000) = Finite (1330 - 2000)" by (simp add: float_eval)
  have e1: "fsub (Finite 1332) (Finite 2000) = Finite (1332 - 2000)" by (simp add: float_eval)
  have e2: "fsub (Finite 1334) (Finite 2000) = Finite (1334 - 2000)" by (simp add: float_eval)
  have e3: "fsub (Finite 1336) (Finite 2000) = Finite (1336 - 2000)" by (simp add: float_eval)
  have ex: "\<forall>j<length ?ts. fsub (Finite (?ts ! j)) (Finite 2000) = Finite (?ts ! j - 2000)"
    using e0 e1 e2 e3 by (simp add: All_less_Suc del: fsub.simps)
  have ord: "sorted ?ts \<and> last ?ts \<le> 2000" and dist: "distinct ?ts" by simp_all
  have "TIME ?tbl = map Finite ?ts \<and> ?ts \<noteq> [] \<longrightarrow>
     (\<exists>i. find_index ?tbl (Finite 2000) = Inr i \<and> i < length ?ts
       \<and> (\<forall>j<length ?ts. float_le (fabs (fsub (Finite (?ts ! i)) (Finite 2000)))
                                 (fabs (fsub (Finite (?ts ! j)) (Finite 2000))))
       \<and> (\<forall>j<i. \<not> float_le (fabs (fsub (Finite (?ts ! j)) (Finite 2000)))
                           (fabs (fsub (Finite (?ts ! i)) (Finite 2000))))
       \<and> ((\<forall>j<length ?ts. fsub (Finite (?ts ! j)) (Finite 2000) = Finite (?ts ! j - 2000)) \<longrightarrow>
            (\<forall>j<length ?ts. \<bar>?ts ! i - 2000\<bar> \<le> \<bar>?ts ! j - 2000\<bar>)
          \<and> (\<forall>j<i. \<bar>?ts ! i - 2000\<bar> < \<bar>?ts ! j - 2000\<bar>)
          \<and> ((\<forall>t\<in>set ?ts. 2000 \<le> t) \<longrightarrow> ?ts ! i = Min (set ?ts))
          \<and> ((\<forall>t\<in>set ?ts. t \<le> 2000) \<longrightarrow> ?ts ! i = Max (set ?ts))
          \<and> (sorted ?ts \<and> 2000 \<le> hd ?ts \<longrightarrow> i = 0)
          \<and> (sorted ?ts \<and> last ?ts \<le> 2000 \<longrightarrow>
                ?ts ! i = last ?ts \<and> (distinct ?ts \<longrightarrow> i = length ?ts - 1))))"
    using find_index_nearest [of ?tbl ?ts 2000 "[()]"] by (rule conjunct1)
  moreover have "TIME ?tbl = map Finite ?ts \<and> ?ts \<noteq> []" by simp
  ultimately have "\<exists>i. find_index ?tbl (Finite 2000) = Inr i \<and> i < length ?ts
       \<and> (\<forall>j<length ?ts. float_le (fabs (fsub (Finite (?ts ! i)) (Finite 2000)))
                                 (fabs (fsub (Finite (?ts ! j)) (Finite 2000))))
       \<and> (\<forall>j<i. \<not> float_le (fabs (fsub (Finite (?ts ! j)) (Finite 2000)))
                           (fabs (fsub (Finite (?ts ! i)) (Finite 2000))))
       \<and> ((\<forall>j<length ?ts. fsub (Finite (?ts ! j)) (Finite 2000) = Finite (?ts ! j - 2000)) \<longrightarrow>
            (\<forall>j<length ?ts. \<bar>?ts ! i - 2000\<bar> \<le> \<bar>?ts ! j - 2000\<bar>)
          \<and> (\<forall>j<i. \<bar>?ts ! i - 2000\<bar> < \<bar>?ts ! j - 2000\<bar>)
          \<and> ((\<forall>t\<in>set ?ts. 2000 \<le> t) \<longrightarrow> ?ts ! i = Min (set ?ts))
          \<and> ((\<forall>t\<in>set ?ts. t \<le> 2000) \<longrightarrow> ?ts ! i = Max (set ?ts))
          \<and> (sorted ?ts \<and> 2000 \<le> hd ?ts \<longrightarrow> i = 0)
          \<and> (sorted ?ts \<and> last ?ts \<le> 2000 \<longrightarrow>
                ?ts ! i = last ?ts \<and> (distinct ?ts \<longrightarrow> i = length ?ts - 1)))"
    by (rule mp)
  then obtain i where i: "find_index ?tbl (Finite 2000) = Inr i"
    and "(\<forall>j<length ?ts. fsub (Finite (?ts ! j)) (Finite 2000) = Finite (?ts ! j - 2000)) \<longrightarrow>
            (sorted ?ts \<and> last ?ts \<le> 2000 \<longrightarrow>
                ?ts ! i = last ?ts \<and> (distinct ?ts \<longrightarrow> i = length ?ts - 1))"
    by blast
  with ex ord dist have "i = length ?ts - 1" by blast
  with i have "find_index ?tbl (Finite 2000) = Inr 3" by simp
  with e0 e1 e2 e3 ord dist show ?thesis by simp
qed

theorem find_index_nearest_counterexample:
  "find_index \<lparr>TIME = map Finite [1330, 1332, 1334, 1336], FLUX = [()]\<rparr>
     (Finite 100000000000000000000) = Inr 0
   \<and> \<bar>1336 - 100000000000000000000\<bar> < \<bar>1330 - (100000000000000000000 :: real)\<bar>
   \<and> fl64 100000000000000000000 = Finite 100000000000000000000"
  by (simp add: find_index_def argmin_def float_eval)

text \<open>
  C2. On an empty \<open>TIME\<close> column \<open>find_index\<close> fails for every query: \<open>argmin\<close> raises
  ValueError ("attempt to get argmin of an empty sequence"), the notebook's form of the
  empty-sequence error.
\<close>

theorem find_index_empty:
  "find_index (tbl\<lparr>TIME := []\<rparr>) q = Inl ValueError_argmin"
  by (simp add: find_index_def argmin_def)

text \<open>
  C8, as the code has it. The start and end indices found by two \<open>find_index\<close> calls are
  passed to \<open>make_animation\<close>, which for a non-zero end index shows
  \<open>end - start + 1\<close> frames, the frames \<open>start, \<dots>, end\<close> with the end frame included.
  On [1333, 1333.5, 1334, 1334.5, 1335] the queries 1333.9 and 1334.9 (as floats) give the
  indices 2 and 4 (1335 is 0.1 away from 1334.9, 1334.5 is 0.4 away), and the frames shown
  are the three at 1334, 1334.5 and 1335.
\<close>

theorem frame_range_inclusive:
  "(find_index tbl q1 = Inr s \<and> find_index tbl q2 = Inr e \<and> e \<noteq> 0
      \<and> length (FLUX tbl) = length (TIME tbl) \<longrightarrow>
      num_frames (FLUX tbl) (int s) (Some (int e)) = int e - int s + 1
    \<and> animated_epochs (FLUX tbl) (int s) (Some (int e)) = map int [s ..< Suc e]
    \<and> animated_frames (FLUX tbl) (int s) (Some (int e)) = map (\<lambda>i. Inr (FLUX tbl ! i)) [s ..< Suc e]
    \<and> make_animation (FLUX tbl) (int s) (Some (int e)) vmin vmax
        = Inr (map (\<lambda>i. Inr (FLUX tbl ! i)) [s ..< Suc e]))
   \<and> find_index \<lparr>TIME = map Finite [1333, 1333.5, 1334, 1334.5, 1335], FLUX = fl\<rparr> (fl64 1333.9)
       = Inr 2
   \<and> find_index \<lparr>TIME = map Finite [1333, 1333.5, 1334, 1334.5, 1335], FLUX = fl\<rparr> (fl64 1334.9)
       = Inr 4
   \<and> num_frames [1333, 1333.5, 1334, 1334.5, 1335 :: real] 2 (Some 4) = 3
   \<and> make_animation [1333, 1333.5, 1334, 1334.5, 1335 :: real] 2 (Some 4) None (Some (Finite 500))
       = Inr [Inr 1334, Inr 1334.5, Inr 1335]"
proof (intro conjI impI)
  assume a: "find_index tbl q1 = Inr s \<and> find_index tbl q2 = Inr e \<and> e \<noteq> 0
      \<and> length (FLUX tbl) = length (TIME tbl)"
  then have e: "e < length (FLUX tbl)" using find_index_bound [of tbl q2 e] by simp
  from a have s: "s < length (FLUX tbl)" using find_index_bound [of tbl q1 s] by simp
  from a show n: "num_frames (FLUX tbl) (int s) (Some (int e)) = int e - int s + 1"
    by (simp add: num_frames_def effective_end_def)
  show ep: "animated_epochs (FLUX tbl) (int s) (Some (int e)) = map int [s ..< Suc e]"
    unfolding animated_epochs_def n by (rule epochs_upt)
  show fr: "animated_frames (FLUX tbl) (int s) (Some (int e)) = map (\<lambda>i. Inr (FLUX tbl ! i)) [s ..< Suc e]"
    unfolding animated_frames_def ep using e by (rule map_getitem_upt)
  from s have "getitem (FLUX tbl) (int s) = Inr (FLUX tbl ! s)" by (simp add: getitem_def)
  moreover from s have "FLUX tbl \<noteq> []" by auto
  ultimately show "make_animation (FLUX tbl) (int s) (Some (int e)) vmin vmax
        = Inr (map (\<lambda>i. Inr (FLUX tbl ! i)) [s ..< Suc e])"
    by (simp add: make_animation_def fr)
next
  show "find_index \<lparr>TIME = map Finite [1333, 1333.5, 1334, 1334.5, 1335], FLUX = fl\<rparr> (fl64 1333.9)
       = Inr 2"
    by (simp add: find_index_def argmin_def float_eval)
next
  show "find_index \<lparr>TIME = map Finite [1333, 1333.5, 1334, 1334.5, 1335], FLUX = fl\<rparr> (fl64 1334.9)
       = Inr 4"
    by (simp add: find_index_def argmin_def float_eval)
next
  show "num_frames [1333, 1333.5, 1334, 1334.5, 1335 :: real] 2 (Some 4) = 3"
    by (simp add: num_frames_def effective_end_def)
next
  have "animated_epochs [1333, 1333.5, 1334, 1334.5, 1335 :: real] 2 (Some 4) = [2, 3, 4]"
    by (simp add: animated_epochs_def num_frames_def effective_end_def upt_rec)
  then show "make_animation [1333, 1333.5, 1334, 1334.5, 1335 :: real] 2 (Some 4) None (Some (Finite 500))
       = Inr [Inr 1334, Inr 1334.5, Inr 1335]"
    by (simp add: make_animation_def animated_frames_def getitem_def)
qed

theorem frame_range_inclusive_witness:
  "find_index \<lparr>TIME = map Finite [1333, 1333.5, 1334, 1334.5, 1335], FLUX = ''abcde''\<rparr> (fl64 1333.9)
     = Inr 2
   \<and> find_index \<lparr>TIME = map Finite [1333, 1333.5, 1334, 1334.5, 1335], FLUX = ''abcde''\<rparr> (fl64 1334.9)
     = Inr 4
   \<and> (4 :: nat) \<noteq> 0
   \<and> length (FLUX \<lparr>TIME = map Finite [1333, 1333.5, 1334, 1334.5, 1335], FLUX = ''abcde''\<rparr>)
       = length (TIME \<lparr>TIME = map Finite [1333, 1333.5, 1334, 1334.5, 1335], FLUX = ''abcde''\<rparr>)
   \<and> num_frames ''abcde'' 2 (Some 4) = 3
   \<and> make_animation ''abcde'' 2 (Some 4) None (Some (Finite 500))
       = Inr [Inr CHR ''c'', Inr CHR ''d'', Inr CHR ''e'']"
  using frame_range_inclusive
    [of "\<lparr>TIME = map Finite [1333, 1333.5, 1334, 1334.5, 1335], FLUX = ''abcde''\<rparr>"
      "fl64 1333.9" 2 "fl64 1334.9" 4 None "Some (Finite 500)" "''abcde''"]
  by (simp add: upt_rec)

theorem frame_range_example_counterexample:
  "\<not> (find_index \<lparr>TIME = map Finite [1333, 1333.5, 1334, 1334.5, 1335], FLUX = [()]\<rparr> (fl64 1333.9)
        = Inr 2
      \<and> find_index \<lparr>TIME = map Finite [1333, 1333.5, 1334, 1334.5, 1335], FLUX = [()]\<rparr> (fl64 1334.9)
        = Inr 3)"
  by (simp add: find_index_def argmin_def float_eval)

section \<open>Claims about the table construction\<close>

text \<open>
  C4, as the code has it. When the stripped names of the schema are distinct and not empty,
  every declared type resolves to a storage type and every value of every row converts to
  the storage type of its column, \<open>json_to_table\<close> returns a table with one column per
  schema entry, in schema order, under the stripped names, each column as long as \<open>data\<close>.
  With no rows the condition on the values holds by itself: the table has all its columns,
  of length 0.
\<close>

theorem schema_fidelity:
  "(distinct (map column_name fields') \<and> (\<forall>x\<in>set fields'. strip (colname x) \<noteq> [])
      \<and> (\<forall>x\<in>set fields'. \<exists>dt. storage_dtype np (datatype' x) = Inr dt
            \<and> (\<forall>r\<in>set data. \<exists>cell. cell_of np dt (dict_get r (column_name x)) = Inr cell))
    \<longrightarrow> (\<exists>t. json_to_table np fields' data = Inr t \<and> length t = length fields'
           \<and> map fst t = map (\<lambda>x. strip (colname x)) fields'
           \<and> (\<forall>c\<in>snd ` set t. length (col_data c) = length data)))
   \<and> (distinct (map column_name fields') \<and> (\<forall>x\<in>set fields'. strip (colname x) \<noteq> [])
      \<and> (\<forall>x\<in>set fields'. \<exists>dt. storage_dtype np (datatype' x) = Inr dt)
    \<longrightarrow> (\<exists>t. json_to_table np fields' [] = Inr t \<and> length t = length fields'
           \<and> map fst t = map (\<lambda>x. strip (colname x)) fields'
           \<and> (\<forall>c\<in>snd ` set t. col_data c = [])))"
proof (intro conjI impI)
  assume a: "distinct (map column_name fields') \<and> (\<forall>x\<in>set fields'. strip (colname x) \<noteq> [])
      \<and> (\<forall>x\<in>set fields'. \<exists>dt. storage_dtype np (datatype' x) = Inr dt
            \<and> (\<forall>r\<in>set data. \<exists>cell. cell_of np dt (dict_get r (column_name x)) = Inr cell))"
  then have ne: "\<forall>x\<in>set fields'. column_name x \<noteq> []" by (simp add: column_name_def)
  from a ne show "\<exists>t. json_to_table np fields' data = Inr t \<and> length t = length fields'
           \<and> map fst t = map (\<lambda>x. strip (colname x)) fields'
           \<and> (\<forall>c\<in>snd ` set t. length (col_data c) = length data)"
    using schema_fidelity_aux [of fields' np data] by blast
next
  assume a: "distinct (map column_name fields') \<and> (\<forall>x\<in>set fields'. strip (colname x) \<noteq> [])
      \<and> (\<forall>x\<in>set fields'. \<exists>dt. storage_dtype np (datatype' x) = Inr dt)"
  then have ne: "\<forall>x\<in>set fields'. column_name x \<noteq> []" by (simp add: column_name_def)
  from a have "\<forall>x\<in>set fields'. \<exists>dt. storage_dtype np (datatype' x) = Inr dt
            \<and> (\<forall>r\<in>set []. \<exists>cell. cell_of np dt (dict_get r (column_name x)) = Inr cell)"
    by simp
  with a ne schema_fidelity_aux [of fields' np "[]"]
  show "\<exists>t. json_to_table np fields' [] = Inr t \<and> length t = length fields'
           \<and> map fst t = map (\<lambda>x. strip (colname x)) fields'
           \<and> (\<forall>c\<in>snd ` set t. col_data c = [])"
    by simp
qed

theorem schema_fidelity_witness:
  "json_to_table numpy_core
     [\<lparr>colname = '' a '', datatype' = ''varchar(3)'', description = []\<rparr>,
      \<lparr>colname = ''b'', datatype' = ''real'', description = []\<rparr>]
     [[''a'' \<mapsto> PStr ''hello'', ''b'' \<mapsto> PInt 3], Map.empty]
   = Inr [(''a'', \<lparr>col_dtype = Unicode 3, col_data = [TextCell ''hel'', TextCell ''Non'']\<rparr>),
          (''b'', \<lparr>col_dtype = Float64, col_data = [FloatCell (Finite 3), FloatCell NaN]\<rparr>)]
   \<and> json_to_table numpy_core
     [\<lparr>colname = '' a '', datatype' = ''varchar(3)'', description = []\<rparr>,
      \<lparr>colname = ''b'', datatype' = ''real'', description = []\<rparr>] []
   = Inr [(''a'', \<lparr>col_dtype = Unicode 3, col_data = []\<rparr>),
          (''b'', \<lparr>col_dtype = Float64, col_data = []\<rparr>)]"
  using schema_fidelity [of
     "[\<lparr>colname = '' a '', datatype' = ''varchar(3)'', description = []\<rparr>,
      \<lparr>colname = ''b'', datatype' = ''real'', description = []\<rparr>]"
     numpy_core "[[''a'' \<mapsto> PStr ''hello'', ''b'' \<mapsto> PInt 3], Map.empty]"]
  by (simp add: eval_defs)

theorem schema_fidelity_counterexample:
  "distinct (map column_name [\<lparr>colname = ''x'', datatype' = ''real'', description = []\<rparr>])
   \<and> storage_dtype numpy_core ''real'' = Inr Float64
   \<and> json_to_table numpy_core [\<lparr>colname = ''x'', datatype' = ''real'', description = []\<rparr>]
         [[''x'' \<mapsto> PStr ''abc'']] = Inl (Convert ValueError)"
  by (simp add: eval_defs)

text \<open>
  C3, as the code has it. The width of a text column is the number in the leftmost
  \<open>varchar(<digits>)\<close> of the declared type: when the declared type is
  \<open>pre @ ''varchar('' @ ds @ '')'' @ post\<close> with \<open>ds\<close> a non-empty run of digits of positive
  value \<open>N\<close>, and no such marker starts inside \<open>pre\<close>, the column built for the entry has the
  type \<open>Unicode N\<close>, and each of its cells is the first \<open>N\<close> characters of the string form of
  the row's value, without the NUL characters at their end: a longer value is always cut,
  never rejected. The table holds that column under the stripped name when that name is not
  empty and no later entry has the same stripped name.
\<close>

theorem varchar_width:
  "datatype' x = pre @ ''varchar('' @ ds @ '')'' @ post \<and> ds \<noteq> [] \<and> list_all isdigit ds
     \<and> (\<forall>p<length pre. match_at (drop p (datatype' x)) = None) \<and> 0 < nat_of_digits ds
   \<longrightarrow> column_for np data x =
         Inr \<lparr>col_dtype = Unicode (nat_of_digits ds),
              col_data = map (\<lambda>r. TextCell (drop_trailing_nul (take (nat_of_digits ds)
                                    (py_str np (dict_get r (strip (colname x))))))) data\<rparr>
     \<and> (\<forall>fields' t j. json_to_table np fields' data = Inr t \<and> j < length fields' \<and> fields' ! j = x
           \<and> strip (colname x) \<noteq> []
           \<and> (\<forall>j'. j < j' \<and> j' < length fields' \<longrightarrow>
                  strip (colname (fields' ! j')) \<noteq> strip (colname x))
         \<longrightarrow> map_of t (strip (colname x)) =
               Some \<lparr>col_dtype = Unicode (nat_of_digits ds),
                     col_data = map (\<lambda>r. TextCell (drop_trailing_nul (take (nat_of_digits ds)
                                    (py_str np (dict_get r (strip (colname x))))))) data\<rparr>)"
proof (intro impI conjI allI)
  assume a: "datatype' x = pre @ ''varchar('' @ ds @ '')'' @ post \<and> ds \<noteq> [] \<and> list_all isdigit ds
     \<and> (\<forall>p<length pre. match_at (drop p (datatype' x)) = None) \<and> 0 < nat_of_digits ds"
  then have w: "declared_width (datatype' x) = Some (nat_of_digits ds)"
    using declared_width_marker [of "datatype' x" pre ds post] by blast
  from a have n: "0 < nat_of_digits ds" by blast
  from declared_width_storage [OF w]
  have s: "storage_dtype np (datatype' x) = Inr (Unicode (nat_of_digits ds))" .
  from column_for_text [OF s n, of data]
  show "column_for np data x =
         Inr \<lparr>col_dtype = Unicode (nat_of_digits ds),
              col_data = map (\<lambda>r. TextCell (drop_trailing_nul (take (nat_of_digits ds)
                                    (py_str np (dict_get r (strip (colname x))))))) data\<rparr>"
    by (simp add: column_name_def)
  fix fields' :: "field list" and t :: "('a, 'b) table" and j
  assume b: "json_to_table np fields' data = Inr t \<and> j < length fields' \<and> fields' ! j = x
           \<and> strip (colname x) \<noteq> []
           \<and> (\<forall>j'. j < j' \<and> j' < length fields' \<longrightarrow>
                  strip (colname (fields' ! j')) \<noteq> strip (colname x))"
  then have last: "\<forall>j'. j < j' \<and> j' < length fields' \<longrightarrow>
                 column_name (fields' ! j') \<noteq> column_name (fields' ! j)"
    and ne: "column_name (fields' ! j) \<noteq> []"
    by (simp_all add: column_name_def)
  from varchar_column [OF _ _ ne last _ n, of np data t] b w
  show "map_of t (strip (colname x)) =
               Some \<lparr>col_dtype = Unicode (nat_of_digits ds),
                     col_data = map (\<lambda>r. TextCell (drop_trailing_nul (take (nat_of_digits ds)
                                    (py_str np (dict_get r (strip (colname x))))))) data\<rparr>"
    by (simp add: column_name_def)
qed

theorem varchar_width_witness:
  "json_to_table numpy_core
     [\<lparr>colname = '' s '', datatype' = '' varchar(3),varchar(12)'', description = []\<rparr>]
     [[''s'' \<mapsto> PStr ''abcdefgh''], [''s'' \<mapsto> PStr [CHR ''a'', CHR 0x00, CHR 0x00, CHR ''b'']]]
   = Inr [(''s'', \<lparr>col_dtype = Unicode 3, col_data = [TextCell ''abc'', TextCell ''a'']\<rparr>)]
   \<and> column_for numpy_core
        [[''s'' \<mapsto> PStr ''abcdefgh''], [''s'' \<mapsto> PStr [CHR ''a'', CHR 0x00, CHR 0x00, CHR ''b'']]]
        \<lparr>colname = '' s '', datatype' = '' varchar(3),varchar(12)'', description = []\<rparr>
      = Inr \<lparr>col_dtype = Unicode 3, col_data = [TextCell ''abc'', TextCell ''a'']\<rparr>"
  using varchar_width [of "\<lparr>colname = '' s '', datatype' = '' varchar(3),varchar(12)'', description = []\<rparr>"
      "'' ''" "''3''" "'',varchar(12)''" numpy_core
      "[[''s'' \<mapsto> PStr ''abcdefgh''], [''s'' \<mapsto> PStr [CHR ''a'', CHR 0x00, CHR 0x00, CHR ''b'']]]"]
  by (simp add: eval_defs)

theorem varchar_width_counterexample:
  "contains ''varchar(12)'' ''varchar(3),varchar(12)''
   \<and> json_to_table numpy_core
         [\<lparr>colname = ''s'', datatype' = ''varchar(3),varchar(12)'', description = []\<rparr>]
         [[''s'' \<mapsto> PStr ''abcdefgh'']]
       = Inr [(''s'', \<lparr>col_dtype = Unicode 3, col_data = [TextCell ''abc'']\<rparr>)]"
  by (simp add: eval_defs)

text \<open>
  C9, as the code has it. In a returned table, at a row that lacks the key of a column, a
  column declared \<open>real\<close> holds NaN; a column declared with a \<open>varchar\<close> width \<open>n > 0\<close> holds
  the first \<open>n\<close> characters of \<open>None\<close>, which is all of \<open>None\<close> from \<open>n = 4\<close> on, and is not
  the NaN of the float column; a column declared with the width 0 is flexible and holds all
  of \<open>None\<close>. The column is looked up under the stripped name of the entry, which is not
  empty and which no later entry shares.
\<close>

theorem missing_key_fill_values:
  "json_to_table np fields' data = Inr t \<and> j < length fields'
     \<and> strip (colname (fields' ! j)) \<noteq> []
     \<and> (\<forall>j'. j < j' \<and> j' < length fields' \<longrightarrow>
            strip (colname (fields' ! j')) \<noteq> strip (colname (fields' ! j)))
     \<and> i < length data \<and> (data ! i) (strip (colname (fields' ! j))) = None
   \<longrightarrow> (datatype' (fields' ! j) = ''real'' \<longrightarrow>
         (\<exists>c. map_of t (strip (colname (fields' ! j))) = Some c \<and> col_dtype c = Float64
              \<and> col_data c ! i = FloatCell NaN))
     \<and> (\<forall>n. declared_width (datatype' (fields' ! j)) = Some n \<and> 0 < n \<longrightarrow>
         (\<exists>c. map_of t (strip (colname (fields' ! j))) = Some c \<and> col_dtype c = Unicode n
              \<and> col_data c ! i = TextCell (take n ''None'')
              \<and> col_data c ! i \<noteq> FloatCell NaN
              \<and> (4 \<le> n \<longrightarrow> col_data c ! i = TextCell ''None'')))
     \<and> (declared_width (datatype' (fields' ! j)) = Some 0 \<longrightarrow>
         (\<exists>c. map_of t (strip (colname (fields' ! j))) = Some c
              \<and> col_data c ! i = TextCell ''None''))"
proof (intro impI conjI allI)
  assume a: "json_to_table np fields' data = Inr t \<and> j < length fields'
     \<and> strip (colname (fields' ! j)) \<noteq> []
     \<and> (\<forall>j'. j < j' \<and> j' < length fields' \<longrightarrow>
            strip (colname (fields' ! j')) \<noteq> strip (colname (fields' ! j)))
     \<and> i < length data \<and> (data ! i) (strip (colname (fields' ! j))) = None"
  then have t: "json_to_table np fields' data = Inr t" and j: "j < length fields'"
    and ne: "column_name (fields' ! j) \<noteq> []"
    and i: "i < length data" and miss: "(data ! i) (column_name (fields' ! j)) = None"
    and last: "\<forall>j'. j < j' \<and> j' < length fields' \<longrightarrow>
                 column_name (fields' ! j') \<noteq> column_name (fields' ! j)"
    by (simp_all add: column_name_def)
  {
    assume "datatype' (fields' ! j) = ''real''"
    from real_column_missing [OF t j ne last this i miss]
    show "\<exists>c. map_of t (strip (colname (fields' ! j))) = Some c \<and> col_dtype c = Float64
              \<and> col_data c ! i = FloatCell NaN"
      by (simp add: column_name_def)
  }
  {
    fix n
    assume "declared_width (datatype' (fields' ! j)) = Some n \<and> 0 < n"
    then have w: "declared_width (datatype' (fields' ! j)) = Some n" and n: "0 < n" by simp_all
    have whole: "drop_trailing_nul ''None'' = ''None''"
      using drop_trailing_nul_None [of 4] by simp
    from varchar_column [OF t j ne last w n] i miss whole
    show "\<exists>c. map_of t (strip (colname (fields' ! j))) = Some c \<and> col_dtype c = Unicode n
              \<and> col_data c ! i = TextCell (take n ''None'')
              \<and> col_data c ! i \<noteq> FloatCell NaN
              \<and> (4 \<le> n \<longrightarrow> col_data c ! i = TextCell ''None'')"
      by (simp add: column_name_def dict_get_def py_str_def drop_trailing_nul_None)
  }
  {
    assume w: "declared_width (datatype' (fields' ! j)) = Some 0"
    have "drop_trailing_nul ''None'' = ''None''" using drop_trailing_nul_None [of 4] by simp
    with flexible_column [OF t j ne last w] i miss
    show "\<exists>c. map_of t (strip (colname (fields' ! j))) = Some c
              \<and> col_data c ! i = TextCell ''None''"
      by (auto simp: column_name_def dict_get_def py_str_def)
  }
qed

theorem missing_key_fill_values_witness:
  "json_to_table numpy_core
     [\<lparr>colname = ''a'', datatype' = ''varchar(3)'', description = []\<rparr>,
      \<lparr>colname = ''b'', datatype' = ''real'', description = []\<rparr>,
      \<lparr>colname = ''c'', datatype' = ''varchar(0)'', description = []\<rparr>]
     [[''a'' \<mapsto> PStr ''hello'', ''b'' \<mapsto> PInt 3, ''c'' \<mapsto> PStr ''x''], Map.empty]
   = Inr [(''a'', \<lparr>col_dtype = Unicode 3, col_data = [TextCell ''hel'', TextCell ''Non'']\<rparr>),
          (''b'', \<lparr>col_dtype = Float64, col_data = [FloatCell (Finite 3), FloatCell NaN]\<rparr>),
          (''c'', \<lparr>col_dtype = Unicode 4, col_data = [TextCell ''x'', TextCell ''None'']\<rparr>)]
   \<and> declared_width ''varchar(3)'' = Some 3 \<and> declared_width ''varchar(0)'' = Some 0"
  using missing_key_fill_values [of numpy_core
     "[\<lparr>colname = ''a'', datatype' = ''varchar(3)'', description = []\<rparr>,
      \<lparr>colname = ''b'', datatype' = ''real'', description = []\<rparr>,
      \<lparr>colname = ''c'', datatype' = ''varchar(0)'', description = []\<rparr>]"
     "[[''a'' \<mapsto> PStr ''hello'', ''b'' \<mapsto> PInt 3, ''c'' \<mapsto> PStr ''x''], Map.empty]"
     "[(''a'', \<lparr>col_dtype = Unicode 3, col_data = [TextCell ''hel'', TextCell ''Non'']\<rparr>),
          (''b'', \<lparr>col_dtype = Float64, col_data = [FloatCell (Finite 3), FloatCell NaN]\<rparr>),
          (''c'', \<lparr>col_dtype = Unicode 4, col_data = [TextCell ''x'', TextCell ''None'']\<rparr>)]"
     1 1]
    missing_key_fill_values [of numpy_core
     "[\<lparr>colname = ''a'', datatype' = ''varchar(3)'', description = []\<rparr>,
      \<lparr>colname = ''b'', datatype' = ''real'', description = []\<rparr>,
      \<lparr>colname = ''c'', datatype' = ''varchar(0)'', description = []\<rparr>]"
     "[[''a'' \<mapsto> PStr ''hello'', ''b'' \<mapsto> PInt 3, ''c'' \<mapsto> PStr ''x''], Map.empty]"
     "[(''a'', \<lparr>col_dtype = Unicode 3, col_data = [TextCell ''hel'', TextCell ''Non'']\<rparr>),
          (''b'', \<lparr>col_dtype = Float64, col_data = [FloatCell (Finite 3), FloatCell NaN]\<rparr>),
          (''c'', \<lparr>col_dtype = Unicode 4, col_data = [TextCell ''x'', TextCell ''None'']\<rparr>)]"
     0 1]
    missing_key_fill_values [of numpy_core
     "[\<lparr>colname = ''a'', datatype' = ''varchar(3)'', description = []\<rparr>,
      \<lparr>colname = ''b'', datatype' = ''real'', description = []\<rparr>,
      \<lparr>colname = ''c'', datatype' = ''varchar(0)'', description = []\<rparr>]"
     "[[''a'' \<mapsto> PStr ''hello'', ''b'' \<mapsto> PInt 3, ''c'' \<mapsto> PStr ''x''], Map.empty]"
     "[(''a'', \<lparr>col_dtype = Unicode 3, col_data = [TextCell ''hel'', TextCell ''Non'']\<rparr>),
          (''b'', \<lparr>col_dtype = Float64, col_data = [FloatCell (Finite 3), FloatCell NaN]\<rparr>),
          (''c'', \<lparr>col_dtype = Unicode 4, col_data = [TextCell ''x'', TextCell ''None'']\<rparr>)]"
     2 1]
  by (simp add: eval_defs)

theorem missing_key_fill_values_counterexample:
  "declared_width ''varchar(0)'' = Some 0
   \<and> json_to_table numpy_core [\<lparr>colname = ''c'', datatype' = ''varchar(0)'', description = []\<rparr>]
        [Map.empty]
      = Inr [(''c'', \<lparr>col_dtype = Unicode 4, col_data = [TextCell ''None'']\<rparr>)]
   \<and> take 0 ''None'' \<noteq> ''None''"
  by (simp add: eval_defs)

text \<open>
  C5, as the code has it. \<open>x.get(col, None)\<close> puts \<open>None\<close> where a row lacks the key, and the
  storage type converts it. In a returned table the column of an entry (one whose stripped
  name is not empty and which no later entry shares its stripped name with) has one cell
  per row, in row order, and the cell at position \<open>i\<close> is the conversion of what row \<open>i\<close>
  holds under the key, of \<open>None\<close> when it holds nothing: no row is shifted. When the
  stripped names are not empty and every storage type is a text or a float type, taking
  keys out of rows never makes the construction fail. For another storage type the
  conversion of \<open>None\<close> decides; for \<open>int\<close> it raises TypeError.
\<close>

theorem missing_key_fill:
  "(json_to_table np fields' data = Inr t \<and> j < length fields'
      \<and> strip (colname (fields' ! j)) \<noteq> []
      \<and> (\<forall>j'. j < j' \<and> j' < length fields' \<longrightarrow>
             strip (colname (fields' ! j')) \<noteq> strip (colname (fields' ! j)))
    \<longrightarrow> (\<exists>c dt. map_of t (strip (colname (fields' ! j))) = Some c
            \<and> storage_dtype np (datatype' (fields' ! j)) = Inr dt
            \<and> length (col_data c) = length data
            \<and> (\<forall>i<length data.
                  cell_of np dt (dict_get (data ! i) (strip (colname (fields' ! j)))) = Inr (col_data c ! i))
            \<and> (\<forall>i<length data. (data ! i) (strip (colname (fields' ! j))) = None \<longrightarrow>
                  cell_of np dt PNone = Inr (col_data c ! i))))
   \<and> (json_to_table np fields' data = Inr t
      \<and> (\<forall>x\<in>set fields'. strip (colname x) \<noteq> [])
      \<and> (\<forall>x\<in>set fields'. storage_dtype np (datatype' x) = Inr Float64
             \<or> (\<exists>n. storage_dtype np (datatype' x) = Inr (Unicode n)))
      \<and> length data' = length data
      \<and> (\<forall>i<length data. \<forall>k. (data' ! i) k = None \<or> (data' ! i) k = (data ! i) k)
    \<longrightarrow> (\<exists>t'. json_to_table np fields' data' = Inr t'))"
proof (intro conjI impI)
  assume a: "json_to_table np fields' data = Inr t \<and> j < length fields'
      \<and> strip (colname (fields' ! j)) \<noteq> []
      \<and> (\<forall>j'. j < j' \<and> j' < length fields' \<longrightarrow>
             strip (colname (fields' ! j')) \<noteq> strip (colname (fields' ! j)))"
  then have t: "json_to_table np fields' data = Inr t" and j: "j < length fields'"
    and ne: "column_name (fields' ! j) \<noteq> []"
    and last: "\<forall>j'. j < j' \<and> j' < length fields' \<longrightarrow>
                 column_name (fields' ! j') \<noteq> column_name (fields' ! j)"
    by (simp_all add: column_name_def)
  from column_aligned [OF t j ne last] obtain c dt where
    m: "map_of t (column_name (fields' ! j)) = Some c"
    and s: "storage_dtype np (datatype' (fields' ! j)) = Inr dt"
    and l: "length (col_data c) = length data"
    and cells: "\<forall>i<length data.
                 cell_of np dt (dict_get (data ! i) (column_name (fields' ! j))) = Inr (col_data c ! i)"
    by blast
  have "\<forall>i<length data. (data ! i) (column_name (fields' ! j)) = None \<longrightarrow>
                  cell_of np dt PNone = Inr (col_data c ! i)"
  proof (intro allI impI)
    fix i assume "i < length data" "(data ! i) (column_name (fields' ! j)) = None"
    with cells show "cell_of np dt PNone = Inr (col_data c ! i)"
      by (auto simp: dict_get_def)
  qed
  with m s l cells
  show "\<exists>c dt. map_of t (strip (colname (fields' ! j))) = Some c
            \<and> storage_dtype np (datatype' (fields' ! j)) = Inr dt
            \<and> length (col_data c) = length data
            \<and> (\<forall>i<length data.
                  cell_of np dt (dict_get (data ! i) (strip (colname (fields' ! j)))) = Inr (col_data c ! i))
            \<and> (\<forall>i<length data. (data ! i) (strip (colname (fields' ! j))) = None \<longrightarrow>
                  cell_of np dt PNone = Inr (col_data c ! i))"
    unfolding column_name_def by blast
next
  assume a: "json_to_table np fields' data = Inr t
      \<and> (\<forall>x\<in>set fields'. strip (colname x) \<noteq> [])
      \<and> (\<forall>x\<in>set fields'. storage_dtype np (datatype' x) = Inr Float64
             \<or> (\<exists>n. storage_dtype np (datatype' x) = Inr (Unicode n)))
      \<and> length data' = length data
      \<and> (\<forall>i<length data. \<forall>k. (data' ! i) k = None \<or> (data' ! i) k = (data ! i) k)"
  then have ne: "\<forall>x\<in>set fields'. column_name x \<noteq> []" by (simp add: column_name_def)
  from a ne show "\<exists>t'. json_to_table np fields' data' = Inr t'"
    using dropped_keys_total [of np fields' data t data'] by blast
qed

theorem missing_key_fill_witness:
  "json_to_table numpy_core
     [\<lparr>colname = ''a'', datatype' = ''varchar(3)'', description = []\<rparr>,
      \<lparr>colname = ''b'', datatype' = ''real'', description = []\<rparr>]
     [[''a'' \<mapsto> PStr ''x'', ''b'' \<mapsto> PInt 1], [''a'' \<mapsto> PStr ''y'', ''b'' \<mapsto> PInt 2],
      [''a'' \<mapsto> PStr ''z'', ''b'' \<mapsto> PInt 3]]
   = Inr [(''a'', \<lparr>col_dtype = Unicode 3, col_data = [TextCell ''x'', TextCell ''y'', TextCell ''z'']\<rparr>),
          (''b'', \<lparr>col_dtype = Float64,
                   col_data = [FloatCell (Finite 1), FloatCell (Finite 2), FloatCell (Finite 3)]\<rparr>)]
   \<and> json_to_table numpy_core
     [\<lparr>colname = ''a'', datatype' = ''varchar(3)'', description = []\<rparr>,
      \<lparr>colname = ''b'', datatype' = ''real'', description = []\<rparr>]
     [[''a'' \<mapsto> PStr ''x'', ''b'' \<mapsto> PInt 1], [''a'' \<mapsto> PStr ''y''],
      [''a'' \<mapsto> PStr ''z'', ''b'' \<mapsto> PInt 3]]
   = Inr [(''a'', \<lparr>col_dtype = Unicode 3, col_data = [TextCell ''x'', TextCell ''y'', TextCell ''z'']\<rparr>),
          (''b'', \<lparr>col_dtype = Float64,
                   col_data = [FloatCell (Finite 1), FloatCell NaN, FloatCell (Finite 3)]\<rparr>)]"
  using missing_key_fill [of numpy_core
     "[\<lparr>colname = ''a'', datatype' = ''varchar(3)'', description = []\<rparr>,
      \<lparr>colname = ''b'', datatype' = ''real'', description = []\<rparr>]"
     "[[''a'' \<mapsto> PStr ''x'', ''b'' \<mapsto> PInt 1], [''a'' \<mapsto> PStr ''y'', ''b'' \<mapsto> PInt 2],
      [''a'' \<mapsto> PStr ''z'', ''b'' \<mapsto> PInt 3]]"
     "[(''a'', \<lparr>col_dtype = Unicode 3, col_data = [TextCell ''x'', TextCell ''y'', TextCell ''z'']\<rparr>),
          (''b'', \<lparr>col_dtype = Float64,
                   col_data = [FloatCell (Finite 1), FloatCell (Finite 2), FloatCell (Finite 3)]\<rparr>)]"
     1
     "[[''a'' \<mapsto> PStr ''x'', ''b'' \<mapsto> PInt 1], [''a'' \<mapsto> PStr ''y''],
      [''a'' \<mapsto> PStr ''z'', ''b'' \<mapsto> PInt 3]]"]
  by (simp add: eval_defs)

theorem missing_key_fill_counterexample:
  "json_to_table numpy_core [\<lparr>colname = ''n'', datatype' = ''int'', description = []\<rparr>]
         [[''n'' \<mapsto> PInt 1], Map.empty] = Inl (Convert TypeError)
   \<and> json_to_table numpy_core [\<lparr>colname = ''n'', datatype' = ''int'', description = []\<rparr>]
         [[''n'' \<mapsto> PInt 1], [''n'' \<mapsto> PInt 2]]
       = Inr [(''n'', \<lparr>col_dtype = Int64, col_data = [IntCell 1, IntCell 2]\<rparr>)]"
  by (simp add: eval_defs)

text \<open>
  C7, as the code has it. When the declared type of some schema entry has no
  \<open>varchar(<digits>)\<close> in it, is not \<open>real\<close> and does not resolve, \<open>json_to_table\<close> raises
  and returns no table, whatever the rows. The exception is that entry's failure of the type
  mapping (AttributeError when the name has \<open>varchar\<close> in it, else numpy's TypeError) when
  the table of the earlier entries can be built, as it can when their stripped names are
  not empty and their columns can be built; with no rows and no empty stripped name it is
  always a failure of the type mapping. An earlier entry that fails raises first.
\<close>

theorem unresolvable_type_aborts:
  "(x \<in> set fields' \<and> rx_search (datatype' x) = None \<and> datatype' x \<noteq> ''real''
      \<and> np_dtype np (datatype' x) = None
    \<longrightarrow> (\<exists>e. json_to_table np fields' data = Inl e))
   \<and> (x \<in> set fields' \<and> rx_search (datatype' x) = None \<and> datatype' x \<noteq> ''real''
      \<and> np_dtype np (datatype' x) = None \<and> (\<forall>y\<in>set fields'. strip (colname y) \<noteq> [])
    \<longrightarrow> (\<exists>e. json_to_table np fields' [] = Inl e \<and> type_mapping_error e))
   \<and> (rx_search (datatype' x) = None \<and> datatype' x \<noteq> ''real'' \<and> np_dtype np (datatype' x) = None
      \<and> (\<forall>y\<in>set pre. strip (colname y) \<noteq> [] \<and> (\<exists>c. column_for np data y = Inr c))
    \<longrightarrow> json_to_table np (pre @ x # post) data
          = Inl (if contains ''varchar'' (datatype' x) then AttributeError_group else TypeError_dtype)
      \<and> type_mapping_error
           (if contains ''varchar'' (datatype' x) then AttributeError_group else TypeError_dtype))
   \<and> (rx_search (datatype' x) = None \<and> datatype' x \<noteq> ''real'' \<and> np_dtype np (datatype' x) = None
      \<and> (\<exists>t. json_to_table np pre data = Inr t)
    \<longrightarrow> json_to_table np (pre @ x # post) data
          = Inl (if contains ''varchar'' (datatype' x) then AttributeError_group else TypeError_dtype))"
proof (intro conjI impI)
  assume a: "x \<in> set fields' \<and> rx_search (datatype' x) = None \<and> datatype' x \<noteq> ''real''
      \<and> np_dtype np (datatype' x) = None"
  then have s: "storage_dtype np (datatype' x) =
           Inl (if contains ''varchar'' (datatype' x) then AttributeError_group else TypeError_dtype)"
    by (simp add: storage_dtype_bad)
  from a have x: "x \<in> set fields'" by simp
  from json_to_table_fails [OF x column_for_storage_error [OF s]]
  show "\<exists>e. json_to_table np fields' data = Inl e" .
next
  assume a: "x \<in> set fields' \<and> rx_search (datatype' x) = None \<and> datatype' x \<noteq> ''real''
      \<and> np_dtype np (datatype' x) = None \<and> (\<forall>y\<in>set fields'. strip (colname y) \<noteq> [])"
  then have s: "storage_dtype np (datatype' x) =
           Inl (if contains ''varchar'' (datatype' x) then AttributeError_group else TypeError_dtype)"
    by (simp add: storage_dtype_bad)
  from a have x: "x \<in> set fields'" by simp
  from a have ne: "\<forall>y\<in>set fields'. column_name y \<noteq> []" by (simp add: column_name_def)
  from json_to_table_fails [OF x column_for_storage_error [OF s]]
  obtain e where e: "json_to_table np fields' [] = Inl e" by blast
  with json_to_table_no_rows_error [OF ne e]
  show "\<exists>e. json_to_table np fields' [] = Inl e \<and> type_mapping_error e" by blast
next
  assume a: "rx_search (datatype' x) = None \<and> datatype' x \<noteq> ''real'' \<and> np_dtype np (datatype' x) = None
      \<and> (\<forall>y\<in>set pre. strip (colname y) \<noteq> [] \<and> (\<exists>c. column_for np data y = Inr c))"
  then have s: "storage_dtype np (datatype' x) =
           Inl (if contains ''varchar'' (datatype' x) then AttributeError_group else TypeError_dtype)"
    by (simp add: storage_dtype_bad)
  from a have ne: "\<forall>y\<in>set pre. column_name y \<noteq> []" by (simp add: column_name_def)
  from a have pre: "\<forall>y\<in>set pre. \<exists>c. column_for np data y = Inr c" by simp
  from json_to_table_total [OF ne pre] obtain t where t: "json_to_table np pre data = Inr t"
    by blast
  from json_to_table_first_failure [OF t column_for_storage_error [OF s]]
  show "json_to_table np (pre @ x # post) data
          = Inl (if contains ''varchar'' (datatype' x) then AttributeError_group else TypeError_dtype)" .
next
  show "type_mapping_error
           (if contains ''varchar'' (datatype' x) then AttributeError_group else TypeError_dtype)"
    by (simp add: type_mapping_error_def)
next
  assume a: "rx_search (datatype' x) = None \<and> datatype' x \<noteq> ''real'' \<and> np_dtype np (datatype' x) = None
      \<and> (\<exists>t. json_to_table np pre data = Inr t)"
  then have s: "storage_dtype np (datatype' x) =
           Inl (if contains ''varchar'' (datatype' x) then AttributeError_group else TypeError_dtype)"
    by (simp add: storage_dtype_bad)
  from a obtain t where t: "json_to_table np pre data = Inr t" by blast
  from json_to_table_first_failure [OF t column_for_storage_error [OF s]]
  show "json_to_table np (pre @ x # post) data
          = Inl (if contains ''varchar'' (datatype' x) then AttributeError_group else TypeError_dtype)" .
qed

theorem unresolvable_type_aborts_witness:
  "json_to_table numpy_core
     [\<lparr>colname = ''a'', datatype' = ''real'', description = []\<rparr>,
      \<lparr>colname = ''b'', datatype' = ''bogus'', description = []\<rparr>]
     [[''a'' \<mapsto> PStr ''1.5'']] = Inl TypeError_dtype
   \<and> json_to_table numpy_core
     [\<lparr>colname = ''a'', datatype' = ''real'', description = []\<rparr>,
      \<lparr>colname = ''b'', datatype' = ''varchar'', description = []\<rparr>]
     [[''a'' \<mapsto> PStr ''1.5'']] = Inl AttributeError_group
   \<and> json_to_table numpy_core
     [\<lparr>colname = ''a'', datatype' = ''real'', description = []\<rparr>,
      \<lparr>colname = ''b'', datatype' = ''bogus'', description = []\<rparr>] [] = Inl TypeError_dtype
   \<and> json_to_table numpy_core
     [\<lparr>colname = ''a'', datatype' = ''real'', description = []\<rparr>] [[''a'' \<mapsto> PStr ''1.5'']]
      = Inr [(''a'', \<lparr>col_dtype = Float64, col_data = [FloatCell (Finite 1.5)]\<rparr>)]
   \<and> column_for numpy_core [[''a'' \<mapsto> PStr ''1.5'']]
        \<lparr>colname = ''a'', datatype' = ''real'', description = []\<rparr>
      = Inr \<lparr>col_dtype = Float64, col_data = [FloatCell (Finite 1.5)]\<rparr>"
  using unresolvable_type_aborts [of "\<lparr>colname = ''b'', datatype' = ''bogus'', description = []\<rparr>"
      "[\<lparr>colname = ''a'', datatype' = ''real'', description = []\<rparr>,
        \<lparr>colname = ''b'', datatype' = ''bogus'', description = []\<rparr>]"
      numpy_core "[[''a'' \<mapsto> PStr ''1.5'']]"
      "[\<lparr>colname = ''a'', datatype' = ''real'', description = []\<rparr>]" "[]"]
    unresolvable_type_aborts [of "\<lparr>colname = ''b'', datatype' = ''varchar'', description = []\<rparr>"
      "[\<lparr>colname = ''a'', datatype' = ''real'', description = []\<rparr>,
        \<lparr>colname = ''b'', datatype' = ''varchar'', description = []\<rparr>]"
      numpy_core "[[''a'' \<mapsto> PStr ''1.5'']]"
      "[\<lparr>colname = ''a'', datatype' = ''real'', description = []\<rparr>]" "[]"]
  by (simp add: eval_defs)

theorem unresolvable_type_aborts_counterexample:
  "rx_search ''bogus'' = None \<and> ''bogus'' \<noteq> ''real'' \<and> np_dtype numpy_core ''bogus'' = None
   \<and> json_to_table numpy_core
         [\<lparr>colname = ''a'', datatype' = ''real'', description = []\<rparr>,
          \<lparr>colname = ''b'', datatype' = ''bogus'', description = []\<rparr>]
         [[''a'' \<mapsto> PStr ''abc'']] = Inl (Convert ValueError)
   \<and> \<not> type_mapping_error (Convert ValueError)
   \<and> json_to_table numpy_core
         [\<lparr>colname = ''col1'', datatype' = ''real'', description = []\<rparr>,
          \<lparr>colname = '' '', datatype' = ''real'', description = []\<rparr>,
          \<lparr>colname = ''b'', datatype' = ''bogus'', description = []\<rparr>]
         [] = Inl ValueError_column
   \<and> \<not> type_mapping_error ValueError_column"
  by (simp add: eval_defs)




end
